theory Spec2Isabelle
  imports Complex_Main "HOL-Library.Monad_Syntax"
begin

section \<open>Tensors\<close>

text \<open>
  A TensorFlow tensor is a shape together with its elements. The elements are read
  through a multi-index, one coordinate for each dimension of the shape. Float32
  values are modelled by the real numbers, without rounding, infinities and NaN; where
  a property depends on them (the noise schedule, the value of the loss), the float32
  operations are parameters of the model. An operation that TensorFlow or Python rejects with an exception
  returns \<open>None\<close>.
\<close>

datatype 'a tensor = Tensor (shape: "nat list") (elem: "nat list \<Rightarrow> 'a")

definition valid_index :: "nat list \<Rightarrow> nat list \<Rightarrow> bool" where
  "valid_index s idx = list_all2 (<) idx s"

text \<open>The sum of all elements of a tensor of shape \<open>s\<close> read through \<open>f\<close>.\<close>

fun tsum :: "nat list \<Rightarrow> (nat list \<Rightarrow> real) \<Rightarrow> real" where
  "tsum [] f = f []"
| "tsum (n # s) f = (\<Sum>i<n. tsum s (\<lambda>idx. f (i # idx)))"

text \<open>\<open>tf.reduce_mean\<close> without an axis: the mean of all elements, a scalar.\<close>

definition reduce_mean :: "real tensor \<Rightarrow> real" where
  "reduce_mean t = tsum (shape t) (elem t) / real (prod_list (shape t))"

text \<open>An elementwise unary operation, and an operation with a scalar operand.\<close>

definition tmap :: "('a \<Rightarrow> 'b) \<Rightarrow> 'a tensor \<Rightarrow> 'b tensor" where
  "tmap f t = Tensor (shape t) (\<lambda>idx. f (elem t idx))"

definition tf_square :: "real tensor \<Rightarrow> real tensor" where
  "tf_square t = tmap (\<lambda>v. v * v) t"

definition clip_by_value :: "real tensor \<Rightarrow> real \<Rightarrow> real \<Rightarrow> real tensor" where
  "clip_by_value t lo hi = tmap (\<lambda>v. max (min v hi) lo) t"

text \<open>
  Broadcasting of an elementwise binary operation, as NumPy and TensorFlow define it:
  the shapes are aligned at their last dimension; two dimensions are compatible when
  they are equal or one of them is 1; a missing leading dimension counts as 1.
  Incompatible shapes raise \<open>InvalidArgumentError\<close>.
\<close>

fun bshape_rev :: "nat list \<Rightarrow> nat list \<Rightarrow> nat list option" where
  "bshape_rev [] ys = Some ys"
| "bshape_rev (x # xs) [] = Some (x # xs)"
| "bshape_rev (x # xs) (y # ys) =
     (if x = y \<or> x = 1 \<or> y = 1
      then map_option ((#) (if x = 1 then y else x)) (bshape_rev xs ys)
      else None)"

definition broadcast_shape :: "nat list \<Rightarrow> nat list \<Rightarrow> nat list option" where
  "broadcast_shape a b = map_option rev (bshape_rev (rev a) (rev b))"

text \<open>The index at which an operand of shape \<open>s\<close> is read for the result's index.\<close>

definition bidx :: "nat list \<Rightarrow> nat list \<Rightarrow> nat list" where
  "bidx s idx =
     map2 (\<lambda>d i. if d = 1 then 0 else i) s (drop (length idx - length s) idx)"

definition tbin :: "('a \<Rightarrow> 'b \<Rightarrow> 'c) \<Rightarrow> 'a tensor \<Rightarrow> 'b tensor \<Rightarrow> 'c tensor option" where
  "tbin f a b =
     (case broadcast_shape (shape a) (shape b) of
        None \<Rightarrow> None
      | Some s \<Rightarrow>
          Some (Tensor s (\<lambda>idx. f (elem a (bidx (shape a) idx)) (elem b (bidx (shape b) idx)))))"

definition tadd :: "real tensor \<Rightarrow> real tensor \<Rightarrow> real tensor option" where
  "tadd a b = tbin (+) a b"

definition tsub :: "real tensor \<Rightarrow> real tensor \<Rightarrow> real tensor option" where
  "tsub a b = tbin (-) a b"

definition tmul :: "real tensor \<Rightarrow> real tensor \<Rightarrow> real tensor option" where
  "tmul a b = tbin (*) a b"

definition tdiv :: "real tensor \<Rightarrow> real tensor \<Rightarrow> real tensor option" where
  "tdiv a b = tbin (/) a b"

text \<open>\<open>tf.transpose\<close> without a permutation reverses the order of the dimensions.\<close>

definition tf_transpose :: "'a tensor \<Rightarrow> 'a tensor" where
  "tf_transpose t = Tensor (rev (shape t)) (\<lambda>idx. elem t (rev idx))"

text \<open>\<open>tf.ones(n, dtype=tf.int32)\<close>: a vector of \<open>n\<close> ones.\<close>

definition tf_ones :: "nat \<Rightarrow> int tensor" where
  "tf_ones n = Tensor [n] (\<lambda>idx. 1)"

text \<open>
  \<open>tf.norm(t, axis=(1, 2))\<close>: the Frobenius norm over the dimensions 1 and 2, which
  are removed from the shape. \<open>tf.norm(t, axis=-1)\<close>: the Euclidean norm over the last
  dimension. Both need a tensor that has these dimensions.
\<close>

definition norm_axes12 :: "real tensor \<Rightarrow> real tensor option" where
  "norm_axes12 t =
     (case shape t of
        b # h # w # rest \<Rightarrow>
          Some (Tensor (b # rest)
            (\<lambda>idx. sqrt (\<Sum>i<h. \<Sum>j<w.
               (elem t (case idx of [] \<Rightarrow> [] | k # r \<Rightarrow> k # i # j # r))\<^sup>2)))
      | _ \<Rightarrow> None)"

definition norm_last :: "real tensor \<Rightarrow> real tensor option" where
  "norm_last t =
     (if shape t = [] then None
      else Some (Tensor (butlast (shape t))
             (\<lambda>idx. sqrt (\<Sum>c<last (shape t). (elem t (idx @ [c]))\<^sup>2))))"

text \<open>
  \<open>tf.concat([a, b], axis=0)\<close>: the rows of \<open>a\<close> followed by the rows of \<open>b\<close>; the
  other dimensions must agree.
\<close>

definition tf_concat0 :: "'a tensor \<Rightarrow> 'a tensor \<Rightarrow> 'a tensor option" where
  "tf_concat0 a b =
     (case (shape a, shape b) of
        (m # sa, n # sb) \<Rightarrow>
          if sa = sb
          then Some (Tensor ((m + n) # sa)
                 (\<lambda>idx. case idx of
                           [] \<Rightarrow> elem a []
                         | i # r \<Rightarrow> if i < m then elem a (i # r) else elem b ((i - m) # r)))
          else None
      | _ \<Rightarrow> None)"

text \<open>
  \<open>tf.data.Dataset.from_tensor_slices(x).batch(batch_size)\<close>: the rows of \<open>x\<close> in
  consecutive groups of \<open>batch_size\<close>; the last group holds the remaining rows. A batch
  size that is not positive is rejected.
\<close>

definition dataset_batch :: "int \<Rightarrow> 'a tensor \<Rightarrow> 'a tensor list option" where
  "dataset_batch batch_size x =
     (case shape x of
        [] \<Rightarrow> None
      | n # s \<Rightarrow>
          if batch_size \<le> 0 then None
          else let bs = nat batch_size in
            Some (map (\<lambda>k. Tensor (min bs (n - k * bs) # s)
                        (\<lambda>idx. elem x (case idx of [] \<Rightarrow> [] | i # r \<Rightarrow> (k * bs + i) # r)))
                   [0..<(n + bs - 1) div bs]))"

section \<open>The random source\<close>

text \<open>
  The global random generator of TensorFlow is a source of normal draws and a source
  of uniform draws. A call takes as many draws as the requested shape has elements,
  in row-major order, and leaves the rest of the source to the next call.
\<close>

record rng =
  normal_src :: "nat \<Rightarrow> real"
  uniform_src :: "nat \<Rightarrow> real"

definition flat_index :: "nat list \<Rightarrow> nat list \<Rightarrow> nat" where
  "flat_index s idx = foldl (\<lambda>acc (d, i). acc * d + i) 0 (zip s idx)"

definition draws :: "(nat \<Rightarrow> real) \<Rightarrow> nat list \<Rightarrow> real tensor" where
  "draws src s =
     Tensor s (\<lambda>idx. map src [0..<prod_list s] ! flat_index s idx)"

definition random_normal :: "nat list \<Rightarrow> rng \<Rightarrow> real tensor \<times> rng" where
  "random_normal s g =
     (draws (normal_src g) s,
      g\<lparr>normal_src := (\<lambda>k. normal_src g (k + prod_list s))\<rparr>)"

definition random_uniform :: "nat list \<Rightarrow> rng \<Rightarrow> real tensor \<times> rng" where
  "random_uniform s g =
     (draws (uniform_src g) s,
      g\<lparr>uniform_src := (\<lambda>k. uniform_src g (k + prod_list s))\<rparr>)"

section \<open>generate.py\<close>

text \<open>The score model is an opaque callable from a state and the level indices.\<close>

type_synonym score_model = "real tensor \<Rightarrow> int tensor \<Rightarrow> real tensor"

definition clamped :: "real tensor \<Rightarrow> real tensor" where
  "clamped x = clip_by_value x 0 1"

definition sample_one_step ::
  "score_model \<Rightarrow> real tensor \<Rightarrow> int tensor \<Rightarrow> real \<Rightarrow> rng \<Rightarrow> (real tensor \<times> rng) option" where
  "sample_one_step model x idx_sigmas alpha_i g =
     (let (z_t, g') = random_normal (shape x) g;
          score = model x idx_sigmas;
          noise = tmap (\<lambda>v. sqrt (alpha_i * 2) * v) z_t
      in do {
        drift \<leftarrow> tadd x (tmap (\<lambda>v. alpha_i * v) score);
        x_new \<leftarrow> tadd drift noise;
        Some (x_new, g')
      })"

text \<open>
  The loops of \<open>sample_many\<close>. \<open>range(T)\<close> is the list \<open>[0..<nat T]\<close>, empty when
  \<open>T\<close> is not positive; \<open>enumerate(sigmas)\<close> pairs each noise level with its position;
  \<open>sigmas[-1]\<close> is read inside the loop over the levels, where the schedule is not empty.
\<close>

fun steps_loop ::
  "score_model \<Rightarrow> int tensor \<Rightarrow> real \<Rightarrow> nat list \<Rightarrow> real tensor \<Rightarrow> rng \<Rightarrow>
   (real tensor \<times> rng) option" where
  "steps_loop model idx_sigmas alpha_i [] batch g = Some (batch, g)"
| "steps_loop model idx_sigmas alpha_i (t # ts) batch g = do {
     (batch', g') \<leftarrow> sample_one_step model batch idx_sigmas alpha_i g;
     steps_loop model idx_sigmas alpha_i ts batch' g'
   }"

fun levels_loop ::
  "score_model \<Rightarrow> real list \<Rightarrow> real \<Rightarrow> int \<Rightarrow> (nat \<times> real) list \<Rightarrow> real tensor \<Rightarrow> rng \<Rightarrow>
   (real tensor \<times> rng) option" where
  "levels_loop model sigmas eps T [] batch g = Some (batch, g)"
| "levels_loop model sigmas eps T ((i, sigma_i) # rest) batch g =
     (let alpha_i = eps * (sigma_i / last sigmas)\<^sup>2 in
      case shape batch of
        [] \<Rightarrow> None
      | n # _ \<Rightarrow>
          let idx_sigmas = tmap (\<lambda>one. one * int i) (tf_ones n) in do {
            (batch', g') \<leftarrow> steps_loop model idx_sigmas alpha_i [0..<nat T] batch g;
            levels_loop model sigmas eps T rest batch' g'
          })"

text \<open>\<open>x_processed\<close> is \<open>None\<close> until the first sub-batch is done.\<close>

datatype processed = PyNone | Processed "real tensor"

fun batches_loop ::
  "score_model \<Rightarrow> real list \<Rightarrow> real \<Rightarrow> int \<Rightarrow> real tensor list \<Rightarrow> processed \<Rightarrow> rng \<Rightarrow>
   (processed \<times> rng) option" where
  "batches_loop model sigmas eps T [] x_processed g = Some (x_processed, g)"
| "batches_loop model sigmas eps T (batch # rest) x_processed g = do {
     (batch', g') \<leftarrow> levels_loop model sigmas eps T (enumerate 0 sigmas) batch g;
     x_processed' \<leftarrow>
       (case x_processed of
          Processed xp \<Rightarrow> map_option Processed (tf_concat0 xp batch')
        | PyNone \<Rightarrow> Some (Processed batch'));
     batches_loop model sigmas eps T rest x_processed' g'
   }"

text \<open>
  \<open>sample_many\<close>. The size of the dataset's images, which the source asks of
  \<open>utils.get_dataset_image_size\<close>, is the parameter \<open>dataset_image_size\<close>. A negative
  \<open>n_images\<close> is rejected by \<open>tf.random.uniform\<close>.
\<close>

definition sample_many ::
  "score_model \<Rightarrow> real list \<Rightarrow> int \<Rightarrow> real \<Rightarrow> int \<Rightarrow> int \<Rightarrow> nat list \<Rightarrow> rng \<Rightarrow>
   (processed \<times> rng) option" where
  "sample_many model sigmas batch_size eps T n_images dataset_image_size g =
     (if n_images < 0 then None
      else
        let image_size = nat n_images # dataset_image_size;
            batch_size = min batch_size n_images;
            (x, g1) = random_uniform image_size g
        in do {
          batches \<leftarrow> dataset_batch batch_size x;
          batches_loop model sigmas eps T batches PyNone g1
        })"

definition preprocess_image_to_save :: "real tensor \<Rightarrow> real tensor" where
  "preprocess_image_to_save x =
     (let x = tmap (\<lambda>v. v * 255) x;
          x = tmap (\<lambda>v. v + 0.5) x;
          x = clip_by_value x 0 255
      in x)"

text \<open>
  \<open>sample_and_save\<close>. A grid file is recorded by its directory, the two numbers of its
  name \<open>sigma{i + 1}_t{t + 1}.png\<close> and the tensor handed to \<open>save_as_grid\<close>; the drawing
  of the grid is outside the model. \<open>save_as_grid\<close> unpacks the shape into four sizes,
  which fails for any other rank, and turns every image into a picture with
  \<open>array_to_img\<close>, which rejects an image without pixels and a number of channels other
  than 1, 3 and 4. Without a directory \<open>os.path.exists\<close> raises.
\<close>

type_synonym grid_file = "string \<times> nat \<times> nat"

definition save_as_grid ::
  "real tensor \<Rightarrow> grid_file \<Rightarrow> (grid_file \<times> real tensor) list \<Rightarrow>
   (grid_file \<times> real tensor) list option" where
  "save_as_grid images filename files =
     (case shape images of
        [n_images, height, width, channels] \<Rightarrow>
          if 0 < n_images \<and> (height = 0 \<or> width = 0 \<or> channels \<notin> {1, 3, 4}) then None
          else Some (files @ [(filename, images)])
      | _ \<Rightarrow> None)"

fun sas_steps ::
  "score_model \<Rightarrow> string \<Rightarrow> nat \<Rightarrow> int tensor \<Rightarrow> real \<Rightarrow> nat list \<Rightarrow> real tensor \<Rightarrow> rng \<Rightarrow>
   (grid_file \<times> real tensor) list \<Rightarrow>
   (real tensor \<times> rng \<times> (grid_file \<times> real tensor) list) option" where
  "sas_steps model dir i idx_sigmas alpha_i [] x g files = Some (x, g, files)"
| "sas_steps model dir i idx_sigmas alpha_i (t # ts) x g files = do {
     (x', g') \<leftarrow> sample_one_step model x idx_sigmas alpha_i g;
     files' \<leftarrow>
       (if (t + 1) mod 10 = 0 then save_as_grid x' (dir, i + 1, t + 1) files
        else Some files);
     sas_steps model dir i idx_sigmas alpha_i ts x' g' files'
   }"

fun sas_levels ::
  "score_model \<Rightarrow> real list \<Rightarrow> real \<Rightarrow> int \<Rightarrow> int \<Rightarrow> string \<Rightarrow> (nat \<times> real) list \<Rightarrow>
   real tensor \<Rightarrow> rng \<Rightarrow> (grid_file \<times> real tensor) list \<Rightarrow>
   (real tensor \<times> rng \<times> (grid_file \<times> real tensor) list) option" where
  "sas_levels model sigmas eps T n_images dir [] x g files = Some (x, g, files)"
| "sas_levels model sigmas eps T n_images dir ((i, sigma_i) # rest) x g files =
     (let alpha_i = eps * (sigma_i / last sigmas)\<^sup>2;
          idx_sigmas = tmap (\<lambda>one. one * int i) (tf_ones (nat n_images))
      in do {
        (x', g', files') \<leftarrow>
          sas_steps model dir i idx_sigmas alpha_i [0..<nat T] x g files;
        sas_levels model sigmas eps T n_images dir rest x' g' files'
      })"

definition sample_and_save ::
  "score_model \<Rightarrow> real list \<Rightarrow> real \<Rightarrow> int \<Rightarrow> int \<Rightarrow> string option \<Rightarrow> nat list \<Rightarrow> rng \<Rightarrow>
   (real tensor \<times> rng \<times> (grid_file \<times> real tensor) list) option" where
  "sample_and_save model sigmas eps T n_images save_directory dataset_image_size g =
     (case save_directory of
        None \<Rightarrow> None
      | Some dir \<Rightarrow>
          if n_images < 0 then None
          else
            let image_size = nat n_images # dataset_image_size;
                (x, g1) = random_uniform image_size g
            in sas_levels model sigmas eps T n_images dir (enumerate 0 sigmas) x g1 [])"

text \<open>
  The noise schedule of the main script,
  \<open>tf.math.exp(tf.linspace(tf.math.log(sigma_high), tf.math.log(sigma_low), num_L))\<close>, a
  float32 tensor. The float32 values that the library returns for a logarithm, an
  exponential and the \<open>i\<close>-th of \<open>num\<close> points of \<open>tf.linspace\<close> are not fixed by the
  script, they are the parameter \<open>ops\<close>. \<open>tf.linspace(start, stop, num)\<close> needs a positive
  \<open>num\<close>; for \<open>num = 1\<close> it is the single value \<open>start\<close>.
\<close>

record float_ops =
  tf_log :: "real \<Rightarrow> real"
  tf_exp :: "real \<Rightarrow> real"
  tf_linspace_point :: "real \<Rightarrow> real \<Rightarrow> int \<Rightarrow> nat \<Rightarrow> real"

definition tf_linspace :: "float_ops \<Rightarrow> real \<Rightarrow> real \<Rightarrow> int \<Rightarrow> real list option" where
  "tf_linspace ops start stop num =
     (if num \<le> 0 then None
      else if num = 1 then Some [start]
      else Some (map (tf_linspace_point ops start stop num) [0..<nat num]))"

definition sigma_levels :: "float_ops \<Rightarrow> real \<Rightarrow> real \<Rightarrow> int \<Rightarrow> real list option" where
  "sigma_levels ops sigma_high sigma_low num_L =
     map_option (map (tf_exp ops))
       (tf_linspace ops (tf_log ops sigma_high) (tf_log ops sigma_low) num_L)"

section \<open>losses.py\<close>

text \<open>\<open>configs.config_values.num_L\<close> is the parameter \<open>num_L\<close>.\<close>

definition loss_per_batch ::
  "int \<Rightarrow> real tensor \<Rightarrow> real tensor \<Rightarrow> real tensor \<Rightarrow> real tensor \<Rightarrow> real option" where
  "loss_per_batch num_L score x_perturbed x sigmas = do {
     scaled \<leftarrow> tmul sigmas score;
     diff \<leftarrow> tsub x_perturbed x;
     target \<leftarrow> tdiv diff sigmas;
     residual \<leftarrow> tadd scaled target;
     l_batch \<leftarrow> norm_axes12 residual;
     l_batch \<leftarrow> norm_last l_batch;
     let l_batch = tf_square l_batch;
     Some (0.5 * reduce_mean l_batch / real_of_int num_L)
   }"

text \<open>
  \<open>loss_per_batch\<close> on float32 values. The tensors hold finite float32 values; what the
  float32 addition, subtraction, multiplication, division, square root and the sum of a
  list return is the parameter \<open>ar\<close> (overflow to an infinity inside a tensor is outside
  the model). The scalar that is returned can also be an infinity or NaN.
\<close>

datatype float_value = Num real | PosInf | NegInf | NaN

record float_arith =
  fl_add :: "real \<Rightarrow> real \<Rightarrow> real"
  fl_sub :: "real \<Rightarrow> real \<Rightarrow> real"
  fl_mul :: "real \<Rightarrow> real \<Rightarrow> real"
  fl_div :: "real \<Rightarrow> real \<Rightarrow> real"
  fl_sqrt :: "real \<Rightarrow> real"
  fl_sum :: "real list \<Rightarrow> real"

text \<open>The elements of a tensor of shape \<open>s\<close> read through \<open>f\<close>, in row-major order.\<close>

fun elements :: "nat list \<Rightarrow> (nat list \<Rightarrow> 'a) \<Rightarrow> 'a list" where
  "elements [] f = [f []]"
| "elements (n # s) f = concat (map (\<lambda>i. elements s (\<lambda>idx. f (i # idx))) [0..<n])"

text \<open>
  \<open>tf.norm\<close> with the Euclidean norm is \<open>sqrt(reduce_sum(t * t, axis))\<close>: each element is
  multiplied with itself, the products are summed, and the square root is taken.
\<close>

definition fl_norm :: "float_arith \<Rightarrow> real list \<Rightarrow> real" where
  "fl_norm ar vs = fl_sqrt ar (fl_sum ar (map (\<lambda>v. fl_mul ar v v) vs))"

definition norm_axes12_fl :: "float_arith \<Rightarrow> real tensor \<Rightarrow> real tensor option" where
  "norm_axes12_fl ar t =
     (case shape t of
        b # h # w # rest \<Rightarrow>
          Some (Tensor (b # rest)
            (\<lambda>idx. fl_norm ar (concat (map (\<lambda>i. map (\<lambda>j.
               elem t (case idx of [] \<Rightarrow> [] | k # r \<Rightarrow> k # i # j # r)) [0..<w]) [0..<h]))))
      | _ \<Rightarrow> None)"

definition norm_last_fl :: "float_arith \<Rightarrow> real tensor \<Rightarrow> real tensor option" where
  "norm_last_fl ar t =
     (if shape t = [] then None
      else Some (Tensor (butlast (shape t))
             (\<lambda>idx. fl_norm ar (map (\<lambda>c. elem t (idx @ [c])) [0..<last (shape t)]))))"

text \<open>
  \<open>tf.reduce_mean\<close> divides the sum of the elements by their number; for a tensor without
  elements this is \<open>0 / 0\<close>, NaN.
\<close>

definition reduce_mean_fl :: "float_arith \<Rightarrow> real tensor \<Rightarrow> float_value" where
  "reduce_mean_fl ar t =
     (if prod_list (shape t) = 0 then NaN
      else Num (fl_div ar (fl_sum ar (elements (shape t) (elem t)))
                  (real (prod_list (shape t)))))"

text \<open>
  \<open>0.5 * m / num_L\<close> for the scalar \<open>m\<close>: a division by \<open>num_L = 0\<close> is an infinity with the
  sign of the dividend, NaN when the dividend is zero.
\<close>

definition half_over :: "float_arith \<Rightarrow> float_value \<Rightarrow> int \<Rightarrow> float_value" where
  "half_over ar m num_L =
     (case m of
        Num v \<Rightarrow>
          (let h = fl_mul ar 0.5 v in
           if num_L \<noteq> 0 then Num (fl_div ar h (real_of_int num_L))
           else if 0 < h then PosInf else if h < 0 then NegInf else NaN)
      | PosInf \<Rightarrow> (if 0 \<le> num_L then PosInf else NegInf)
      | NegInf \<Rightarrow> (if 0 \<le> num_L then NegInf else PosInf)
      | NaN \<Rightarrow> NaN)"

definition loss_per_batch_fl ::
  "float_arith \<Rightarrow> int \<Rightarrow> real tensor \<Rightarrow> real tensor \<Rightarrow> real tensor \<Rightarrow> real tensor \<Rightarrow>
     float_value option" where
  "loss_per_batch_fl ar num_L score x_perturbed x sigmas = do {
     scaled \<leftarrow> tbin (fl_mul ar) sigmas score;
     diff \<leftarrow> tbin (fl_sub ar) x_perturbed x;
     target \<leftarrow> tbin (fl_div ar) diff sigmas;
     residual \<leftarrow> tbin (fl_add ar) scaled target;
     l_batch \<leftarrow> norm_axes12_fl ar residual;
     l_batch \<leftarrow> norm_last_fl ar l_batch;
     let l_batch = tmap (\<lambda>v. fl_mul ar v v) l_batch;
     Some (half_over ar (reduce_mean_fl ar l_batch) num_L)
   }"

text \<open>\<open>ssm_loss\<close>; the value is also printed, which the model leaves out.\<close>

definition ssm_loss :: "real tensor \<Rightarrow> real tensor \<Rightarrow> rng \<Rightarrow> (real \<times> rng) option" where
  "ssm_loss scores data_grads g =
     (let (v, g') = random_normal (shape scores) g in do {
        vg \<leftarrow> tmul (tf_transpose v) data_grads;
        vgv \<leftarrow> tmul vg v;
        vs \<leftarrow> tmul (tf_transpose v) scores;
        loss \<leftarrow> tadd vgv (tmap (\<lambda>y. 0.5 * y) (tf_square vs));
        Some (reduce_mean loss, g')
      })"

section \<open>The claims in the words of the specification\<close>

text \<open>
  The step size of level \<open>i\<close>, \<open>eps * (sigma_i / sigma_L)\<^sup>2\<close> with the last noise level of
  the schedule, and the index tensor of a level, a constant vector.
\<close>

definition level_alpha :: "real list \<Rightarrow> real \<Rightarrow> nat \<Rightarrow> real" where
  "level_alpha sigmas eps i = eps * (sigmas ! i / sigmas ! (length sigmas - 1))\<^sup>2"

definition level_index :: "nat \<Rightarrow> nat \<Rightarrow> int tensor" where
  "level_index n i = Tensor [n] (\<lambda>idx. int i)"

text \<open>
  \<open>T\<close> Langevin steps at one level, and the state after the first \<open>k\<close> levels: level
  \<open>k\<close> starts from the state that the levels before it have left. \<open>rows\<close> gives the
  length of the index tensor from the state at the start of a level.
\<close>

fun langevin_steps ::
  "score_model \<Rightarrow> int tensor \<Rightarrow> real \<Rightarrow> nat \<Rightarrow> real tensor \<Rightarrow> rng \<Rightarrow> (real tensor \<times> rng) option" where
  "langevin_steps model idx alpha 0 x g = Some (x, g)"
| "langevin_steps model idx alpha (Suc t) x g = do {
     (x', g') \<leftarrow> sample_one_step model x idx alpha g;
     langevin_steps model idx alpha t x' g'
   }"

fun annealed ::
  "score_model \<Rightarrow> real list \<Rightarrow> real \<Rightarrow> nat \<Rightarrow> (real tensor \<Rightarrow> nat) \<Rightarrow> nat \<Rightarrow> real tensor \<Rightarrow> rng \<Rightarrow>
   (real tensor \<times> rng) option" where
  "annealed model sigmas eps T rows 0 x g = Some (x, g)"
| "annealed model sigmas eps T rows (Suc k) x g = do {
     (x', g') \<leftarrow> annealed model sigmas eps T rows k x g;
     langevin_steps model (level_index (rows x') k) (level_alpha sigmas eps k) T x' g'
   }"

text \<open>
  The state after \<open>t\<close> steps of level \<open>i\<close>, for index tensors of length \<open>n\<close>.
\<close>

definition state_at ::
  "score_model \<Rightarrow> real list \<Rightarrow> real \<Rightarrow> nat \<Rightarrow> nat \<Rightarrow> nat \<Rightarrow> nat \<Rightarrow> real tensor \<Rightarrow> rng \<Rightarrow>
   (real tensor \<times> rng) option" where
  "state_at model sigmas eps T n i t x g = do {
     (y, h) \<leftarrow> annealed model sigmas eps T (\<lambda>x. n) i x g;
     langevin_steps model (level_index n i) (level_alpha sigmas eps i) t y h
   }"

text \<open>
  The sub-batches annealed one after the other, each with index tensors as long as the
  sub-batch, the random source handed from one to the next.
\<close>

fun annealed_batches ::
  "score_model \<Rightarrow> real list \<Rightarrow> real \<Rightarrow> nat \<Rightarrow> real tensor list \<Rightarrow> rng \<Rightarrow>
   (real tensor list \<times> rng) option" where
  "annealed_batches model sigmas eps T [] g = Some ([], g)"
| "annealed_batches model sigmas eps T (batch # rest) g = do {
     (out, g') \<leftarrow> annealed model sigmas eps T (\<lambda>y. hd (shape batch)) (length sigmas) batch g;
     (outs, g'') \<leftarrow> annealed_batches model sigmas eps T rest g';
     Some (out # outs, g'')
   }"

text \<open>
  The operations of the schedule without rounding: the logarithm and the exponential of
  the reals and the points \<open>start + i * (stop - start) / (num - 1)\<close>. The finite float32
  values are the numbers \<open>m * 2\<^sup>e\<close> with an integer \<open>m\<close> of less than 24 bits and
  \<open>-149 \<le> e \<le> 104\<close>.
\<close>

definition exact_ops :: float_ops where
  "exact_ops = \<lparr>tf_log = ln, tf_exp = exp,
     tf_linspace_point =
       (\<lambda>start stop num i. start + ((stop - start) / real_of_int (num - 1)) * real i)\<rparr>"

definition is_float32 :: "real \<Rightarrow> bool" where
  "is_float32 x \<longleftrightarrow>
     (\<exists>(m::int) (k::nat). \<bar>m\<bar> < 2 ^ 24 \<and>
        (k \<le> 104 \<and> x = real_of_int m * 2 ^ k \<or> k \<le> 149 \<and> x = real_of_int m / 2 ^ k))"

text \<open>
  The arithmetic without rounding, and what IEEE 754 arithmetic with rounding to nearest
  guarantees for float32 operands: a result that is a float32 value is returned as it is,
  the sum of a single element is this element, and a product of magnitude less than
  \<open>2\<^sup>-\<^sup>1\<^sup>5\<^sup>0\<close>, half of the smallest positive float32 value, is zero.
\<close>

definition exact_arith :: float_arith where
  "exact_arith = \<lparr>fl_add = (+), fl_sub = (-), fl_mul = (*), fl_div = (/), fl_sqrt = sqrt,
     fl_sum = sum_list\<rparr>"

definition ieee_arith :: "float_arith \<Rightarrow> bool" where
  "ieee_arith ar \<longleftrightarrow>
     (\<forall>a b. is_float32 a \<and> is_float32 b \<and> is_float32 (a + b) \<longrightarrow> fl_add ar a b = a + b) \<and>
     (\<forall>a b. is_float32 a \<and> is_float32 b \<and> is_float32 (a - b) \<longrightarrow> fl_sub ar a b = a - b) \<and>
     (\<forall>a b. is_float32 a \<and> is_float32 b \<and> is_float32 (a * b) \<longrightarrow> fl_mul ar a b = a * b) \<and>
     (\<forall>a b. is_float32 a \<and> is_float32 b \<and> b \<noteq> 0 \<and> is_float32 (a / b) \<longrightarrow>
        fl_div ar a b = a / b) \<and>
     (\<forall>a. is_float32 a \<and> 0 \<le> a \<and> is_float32 (sqrt a) \<longrightarrow> fl_sqrt ar a = sqrt a) \<and>
     (\<forall>a. is_float32 a \<longrightarrow> fl_sum ar [a] = a) \<and>
     (\<forall>a b. is_float32 a \<and> is_float32 b \<and> \<bar>a * b\<bar> < 1 / 2 ^ 150 \<longrightarrow> fl_mul ar a b = 0)"

text \<open>
  The loss in the words of the specification. The residual of one element is
  \<open>sigma * score + (x_perturbed - x) / sigma\<close>, with the noise level read where
  broadcasting reads it; its norm is taken over the spatial dimensions, then over the
  channels, squared, averaged over the batch, halved and divided by \<open>num_L\<close>.
\<close>

definition residual_at ::
  "real tensor \<Rightarrow> real tensor \<Rightarrow> real tensor \<Rightarrow> real tensor \<Rightarrow> nat \<Rightarrow> nat \<Rightarrow> nat \<Rightarrow> nat \<Rightarrow> real" where
  "residual_at score x_perturbed x sigmas b h w c =
     elem sigmas (bidx (shape sigmas) [b, h, w, c]) * elem score [b, h, w, c] +
     (elem x_perturbed [b, h, w, c] - elem x [b, h, w, c]) /
       elem sigmas (bidx (shape sigmas) [b, h, w, c])"

definition loss_per_batch_spec ::
  "int \<Rightarrow> nat \<Rightarrow> nat \<Rightarrow> nat \<Rightarrow> nat \<Rightarrow> (nat \<Rightarrow> nat \<Rightarrow> nat \<Rightarrow> nat \<Rightarrow> real) \<Rightarrow> real" where
  "loss_per_batch_spec num_L B H W C r =
     0.5 * ((\<Sum>b<B. (sqrt (\<Sum>c<C. (sqrt (\<Sum>h<H. \<Sum>w<W. (r b h w c)\<^sup>2))\<^sup>2))\<^sup>2) / real B)
       / real_of_int num_L"

text \<open>
  The sliced score matching objective with dot products along \<open>v\<close>, for one example
  of \<open>D\<close> features: \<open>v \<cdot> data_grads \<cdot> v + 0.5 * (v \<cdot> scores)\<^sup>2\<close>.
\<close>

definition ssm_dot_product_objective ::
  "nat \<Rightarrow> real tensor \<Rightarrow> real tensor \<Rightarrow> real tensor \<Rightarrow> real" where
  "ssm_dot_product_objective D v scores data_grads =
     (\<Sum>i<D. elem v [i] * elem data_grads [i] * elem v [i]) +
     0.5 * (\<Sum>i<D. elem v [i] * elem scores [i])\<^sup>2"

section \<open>Properties of the tensor operations\<close>

lemma bshape_rev_same: "bshape_rev xs xs = Some xs"
  by (induction xs) auto

lemma broadcast_shape_same: "broadcast_shape s s = Some s"
  by (simp add: broadcast_shape_def bshape_rev_same)

lemma bshape_rev_Nil2: "bshape_rev xs [] = Some xs"
  by (cases xs) simp_all

lemma bshape_rev_commute: "bshape_rev xs ys = bshape_rev ys xs"
  by (induction xs ys rule: bshape_rev.induct) (auto simp add: bshape_rev_Nil2)

lemma broadcast_shape_commute: "broadcast_shape a b = broadcast_shape b a"
  by (simp add: broadcast_shape_def bshape_rev_commute [of "rev a"])

lemma bshape_rev_length:
  "bshape_rev xs ys = Some zs \<Longrightarrow> length zs = max (length xs) (length ys)"
  by (induction xs ys arbitrary: zs rule: bshape_rev.induct) (auto split: if_splits)

lemma broadcast_shape_length:
  "broadcast_shape a b = Some s \<Longrightarrow> length s = max (length a) (length b)"
  by (auto simp add: broadcast_shape_def dest: bshape_rev_length)

lemma map2_unit_dims:
  "list_all2 (<) idx s \<Longrightarrow> map2 (\<lambda>d i. if d = Suc 0 then 0 else i) s idx = (idx :: nat list)"
  by (induction idx s rule: list_all2_induct) auto

lemma bidx_valid: "valid_index s idx \<Longrightarrow> bidx s idx = idx"
  unfolding valid_index_def bidx_def
  by (frule list_all2_lengthD) (simp add: map2_unit_dims)

lemma map2_unit_idem:
  "map2 (\<lambda>d i. if d = Suc 0 then 0 else i) s (map2 (\<lambda>d i. if d = Suc 0 then 0 else i) s idx) =
   map2 (\<lambda>d i. if d = Suc 0 then 0 else i) s (idx :: nat list)"
  by (induction s arbitrary: idx) (auto simp add: zip_Cons1 split: list.splits)

lemma bidx_idem: "bidx s (bidx s idx) = bidx s idx"
proof (cases "length s \<le> length idx")
  case True
  then show ?thesis by (simp add: bidx_def map2_unit_idem)
next
  case False
  then show ?thesis by (simp add: bidx_def map2_unit_idem)
qed

lemma tbin_same_shape:
  "shape b = shape a \<Longrightarrow>
   tbin f a b = Some (Tensor (shape a)
     (\<lambda>idx. f (elem a (bidx (shape a) idx)) (elem b (bidx (shape a) idx))))"
  by (simp add: tbin_def broadcast_shape_same)

lemma shape_tmap: "shape (tmap f t) = shape t"
  by (simp add: tmap_def)

lemma elem_tmap: "elem (tmap f t) idx = f (elem t idx)"
  by (simp add: tmap_def)

lemma tadd_rank: "tadd a b = Some c \<Longrightarrow> length (shape a) \<le> length (shape c)"
  by (auto simp add: tadd_def tbin_def split: option.splits dest: broadcast_shape_length)

lemma shape_random_normal: "shape (fst (random_normal s g)) = s"
  by (simp add: random_normal_def draws_def)

lemma shape_random_uniform: "shape (fst (random_uniform s g)) = s"
  by (simp add: random_uniform_def draws_def)

section \<open>The Langevin step\<close>

lemma sample_one_step_total:
  assumes "shape (model x idx) = shape x"
  shows "\<exists>x' g'. sample_one_step model x idx alpha g = Some (x', g') \<and> shape x' = shape x"
proof -
  obtain z h where zg: "random_normal (shape x) g = (z, h)"
    by (cases "random_normal (shape x) g")
  have sz: "shape z = shape x"
    using zg by (simp add: random_normal_def draws_def) auto
  obtain drift where d: "tadd x (tmap (\<lambda>v. alpha * v) (model x idx)) = Some drift"
    and sd: "shape drift = shape x"
    using assms by (simp add: tadd_def tbin_def broadcast_shape_same tmap_def)
  obtain y where n: "tadd drift (tmap (\<lambda>v. sqrt (alpha * 2) * v) z) = Some y"
    and sy: "shape y = shape x"
    using sz sd by (simp add: tadd_def tbin_def broadcast_shape_same tmap_def)
  show ?thesis
    by (simp add: sample_one_step_def zg d n sy)
qed

lemma sample_one_step_rank:
  assumes "sample_one_step model x idx alpha g = Some (x', g')"
  shows "length (shape x) \<le> length (shape x')"
proof -
  from assms obtain drift noise where
    d: "tadd x (tmap (\<lambda>v. alpha * v) (model x idx)) = Some drift" and
    n: "tadd drift noise = Some x'"
    by (auto simp add: sample_one_step_def split: prod.splits bind_splits)
  from tadd_rank [OF d] tadd_rank [OF n] show ?thesis by simp
qed

text \<open>
  Claim C1. When the score has the shape of the state, one call of \<open>sample_one_step\<close>
  returns a tensor of the state's shape whose every element is
  \<open>x + alpha_i * score + sqrt (2 * alpha_i) * z\<close>, where \<open>z\<close> is the normal draw, of the
  state's shape, that the call takes from the random source.
\<close>

theorem sample_one_step_update:
  assumes "shape (model x idx_sigmas) = shape x"
  shows "\<exists>x_new. sample_one_step model x idx_sigmas alpha_i g =
            Some (x_new, snd (random_normal (shape x) g)) \<and>
          shape x_new = shape x \<and>
          shape (fst (random_normal (shape x) g)) = shape x \<and>
          (\<forall>idx. valid_index (shape x) idx \<longrightarrow>
             elem x_new idx =
               elem x idx + alpha_i * elem (model x idx_sigmas) idx +
               sqrt (2 * alpha_i) * elem (fst (random_normal (shape x) g)) idx)"
proof -
  obtain z g' where zg: "random_normal (shape x) g = (z, g')"
    by (cases "random_normal (shape x) g")
  have sz: "shape z = shape x"
    using shape_random_normal [of "shape x" g] zg by simp
  define drift where "drift = Tensor (shape x)
     (\<lambda>idx. elem x (bidx (shape x) idx) +
        elem (tmap (\<lambda>v. alpha_i * v) (model x idx_sigmas)) (bidx (shape x) idx))"
  define x_new where "x_new = Tensor (shape x)
     (\<lambda>idx. elem drift (bidx (shape x) idx) +
        elem (tmap (\<lambda>v. sqrt (alpha_i * 2) * v) z) (bidx (shape x) idx))"
  have d: "tadd x (tmap (\<lambda>v. alpha_i * v) (model x idx_sigmas)) = Some drift"
    unfolding tadd_def drift_def using assms
    by (simp add: tbin_same_shape shape_tmap)
  have n: "tadd drift (tmap (\<lambda>v. sqrt (alpha_i * 2) * v) z) = Some x_new"
    unfolding tadd_def x_new_def using sz
    by (simp add: tbin_same_shape shape_tmap drift_def)
  have run: "sample_one_step model x idx_sigmas alpha_i g = Some (x_new, g')"
    by (simp add: sample_one_step_def zg d n)
  have el: "elem x_new idx =
      elem x idx + alpha_i * elem (model x idx_sigmas) idx + sqrt (2 * alpha_i) * elem z idx"
    if "valid_index (shape x) idx" for idx
    using that by (simp add: x_new_def drift_def elem_tmap bidx_valid mult.commute)
  show ?thesis
    using run el sz by (simp add: zg x_new_def)
qed

theorem sample_one_step_update_witness:
  "\<exists>x_new. sample_one_step (\<lambda>x idx. x) (Tensor [2] (\<lambda>idx. 1)) (Tensor [2] (\<lambda>idx. 0)) (1/2)
       \<lparr>normal_src = (\<lambda>k. 1), uniform_src = (\<lambda>k. 1/2)\<rparr> =
         Some (x_new, \<lparr>normal_src = (\<lambda>k. 1), uniform_src = (\<lambda>k. 1/2)\<rparr>) \<and>
     shape x_new = [2] \<and> elem x_new [1] = 5/2"
proof -
  let ?x = "Tensor [2] (\<lambda>idx. 1 :: real)"
  let ?g = "\<lparr>normal_src = (\<lambda>k. 1 :: real), uniform_src = (\<lambda>k. 1/2)\<rparr>"
  have v: "valid_index (shape ?x) [1]"
    by (simp add: valid_index_def)
  have z: "elem (fst (random_normal (shape ?x) ?g)) [1] = 1"
    by (simp add: random_normal_def draws_def flat_index_def)
  have r: "snd (random_normal (shape ?x) ?g) = ?g"
    by (simp add: random_normal_def)
  from sample_one_step_update [of "\<lambda>x idx. x" ?x "Tensor [2] (\<lambda>idx. 0)" "1/2" ?g]
  obtain x_new where
    "sample_one_step (\<lambda>x idx. x) ?x (Tensor [2] (\<lambda>idx. 0)) (1/2) ?g = Some (x_new, snd (random_normal (shape ?x) ?g))"
    "shape x_new = shape ?x"
    "\<forall>idx. valid_index (shape ?x) idx \<longrightarrow>
       elem x_new idx = elem ?x idx + 1/2 * elem ?x idx + sqrt (2 * (1/2)) * elem (fst (random_normal (shape ?x) ?g)) idx"
    by auto
  with v z r show ?thesis by auto
qed

text \<open>
  Claim C8. The new state is a function of the state, the score, the step size and the
  normal draw alone: two calls that agree on these return the same tensor, whatever else
  differs between their models, level indices and random sources.
\<close>

theorem sample_one_step_deterministic:
  assumes "model1 x idx1 = model2 x idx2"
    and "fst (random_normal (shape x) g1) = fst (random_normal (shape x) g2)"
  shows "map_option fst (sample_one_step model1 x idx1 alpha_i g1) =
         map_option fst (sample_one_step model2 x idx2 alpha_i g2)"
proof -
  obtain z h1 where r1: "random_normal (shape x) g1 = (z, h1)"
    by (cases "random_normal (shape x) g1")
  obtain z' h2 where r2: "random_normal (shape x) g2 = (z', h2)"
    by (cases "random_normal (shape x) g2")
  from assms(2) r1 r2 have zz: "z' = z" by simp
  show ?thesis
    by (cases "tadd x (tmap (\<lambda>v. alpha_i * v) (model2 x idx2))")
       (simp_all add: sample_one_step_def r1 r2 zz assms(1) split: option.split bind_split)
qed

theorem sample_one_step_deterministic_witness:
  "map_option fst (sample_one_step (\<lambda>x idx. x) (Tensor [2] (\<lambda>idx. 1)) (Tensor [2] (\<lambda>idx. 0)) (1/2)
       \<lparr>normal_src = (\<lambda>k. 1), uniform_src = (\<lambda>k. 0)\<rparr>) =
   map_option fst (sample_one_step (\<lambda>x idx. if elem idx [0] = 7 then x else tmap uminus x)
       (Tensor [2] (\<lambda>idx. 1)) (Tensor [2] (\<lambda>idx. 7)) (1/2)
       \<lparr>normal_src = (\<lambda>k. if k < 2 then 1 else 0), uniform_src = (\<lambda>k. 1)\<rparr>)"
  by (rule sample_one_step_deterministic) (simp_all add: random_normal_def draws_def upt_rec)

section \<open>The annealing loops\<close>

lemma steps_loop_langevin:
  "steps_loop model idx alpha ts x g = langevin_steps model idx alpha (length ts) x g"
  by (induction ts arbitrary: x g) (auto split: bind_splits)

lemma langevin_steps_rank:
  "langevin_steps model idx alpha T x g = Some (x', g') \<Longrightarrow> length (shape x) \<le> length (shape x')"
proof (induction T arbitrary: x g)
  case 0
  then show ?case by simp
next
  case (Suc T)
  from Suc.prems obtain y h where
    s: "sample_one_step model x idx alpha g = Some (y, h)" and
    r: "langevin_steps model idx alpha T y h = Some (x', g')"
    by (auto split: bind_splits)
  from sample_one_step_rank [OF s] Suc.IH [OF r] show ?case by simp
qed

lemma langevin_steps_total:
  assumes "\<forall>x idx. shape (model x idx) = shape x"
  shows "\<exists>x' g'. langevin_steps model idx alpha T x g = Some (x', g') \<and> shape x' = shape x"
proof (induction T arbitrary: x g)
  case 0
  show ?case by simp
next
  case (Suc T)
  from assms obtain y h where
    s: "sample_one_step model x idx alpha g = Some (y, h)" and sy: "shape y = shape x"
    using sample_one_step_total [of model x idx alpha g] by auto
  from Suc.IH [of y h] sy s show ?case by auto
qed

lemma level_index_ones: "tmap (\<lambda>one. one * int i) (tf_ones n) = level_index n i"
  by (simp add: tmap_def tf_ones_def level_index_def)

lemma annealed_stuck:
  "annealed model sigmas eps T rows k x g = None \<Longrightarrow>
   annealed model sigmas eps T rows (k + m) x g = None"
  by (induction m) auto

lemma annealed_shape:
  assumes "\<forall>x idx. shape (model x idx) = shape x"
  shows "\<exists>x' g'. annealed model sigmas eps T rows k x g = Some (x', g') \<and> shape x' = shape x"
proof (induction k)
  case 0
  show ?case by simp
next
  case (Suc k)
  then obtain y h where a: "annealed model sigmas eps T rows k x g = Some (y, h)"
    and sy: "shape y = shape x" by blast
  from langevin_steps_total [OF assms, of "level_index (rows y) k" "level_alpha sigmas eps k" T y h]
  obtain x' g' where
    "langevin_steps model (level_index (rows y) k) (level_alpha sigmas eps k) T y h = Some (x', g')"
    "shape x' = shape y"
    by blast
  with a sy show ?case by simp
qed

lemma annealed_rows_fixed:
  assumes "\<forall>x idx. shape (model x idx) = shape x"
  shows "annealed model sigmas eps T (\<lambda>x. hd (shape x)) k x g =
         annealed model sigmas eps T (\<lambda>y. hd (shape x)) k x g"
proof (induction k)
  case 0
  show ?case by simp
next
  case (Suc k)
  from annealed_shape [OF assms, of sigmas eps T "\<lambda>y. hd (shape x)" k x g]
  obtain y h where a: "annealed model sigmas eps T (\<lambda>y. hd (shape x)) k x g = Some (y, h)"
    and sy: "shape y = shape x" by blast
  with Suc show ?case by simp
qed

lemma levels_loop_from:
  assumes "rest = drop k sigmas" "k \<le> length sigmas"
    and "annealed model sigmas eps (nat T) (\<lambda>x. hd (shape x)) k x0 g0 = Some (x, g)"
    and "shape x \<noteq> []"
  shows "levels_loop model sigmas eps T (enumerate k rest) x g =
         annealed model sigmas eps (nat T) (\<lambda>x. hd (shape x)) (length sigmas) x0 g0"
  using assms
proof (induction rest arbitrary: k x g)
  case Nil
  then have "k = length sigmas" by simp
  with Nil show ?case by simp
next
  case (Cons sigma_i rest)
  from Cons.prems(1,2) have k: "k < length sigmas"
    by (metis drop_all leI list.distinct(1))
  from Cons.prems(1) k have sig: "sigma_i = sigmas ! k" and rest: "rest = drop (Suc k) sigmas"
    by (simp_all add: Cons_nth_drop_Suc [symmetric])
  from k have ne: "sigmas \<noteq> []" by auto
  have alpha: "eps * (sigma_i / last sigmas)\<^sup>2 = level_alpha sigmas eps k"
    using ne by (simp add: level_alpha_def sig last_conv_nth)
  obtain n s where sh: "shape x = n # s"
    using Cons.prems(4) by (cases "shape x") auto
  let ?run = "langevin_steps model (level_index n k) (level_alpha sigmas eps k) (nat T) x g"
  have unfold: "levels_loop model sigmas eps T (enumerate k (sigma_i # rest)) x g =
      (case ?run of None \<Rightarrow> None
       | Some (x', g') \<Rightarrow> levels_loop model sigmas eps T (enumerate (Suc k) rest) x' g')"
    by (simp add: sh alpha level_index_ones steps_loop_langevin split: option.split bind_split)
  have next_level: "annealed model sigmas eps (nat T) (\<lambda>x. hd (shape x)) (Suc k) x0 g0 = ?run"
    by (simp add: Cons.prems(3) sh)
  show ?case
  proof (cases ?run)
    case None
    have e: "Suc k + (length sigmas - Suc k) = length sigmas"
      using k by simp
    have "annealed model sigmas eps (nat T) (\<lambda>x. hd (shape x)) (Suc k + (length sigmas - Suc k)) x0 g0 = None"
      by (rule annealed_stuck) (simp only: next_level None)
    then have "annealed model sigmas eps (nat T) (\<lambda>x. hd (shape x)) (length sigmas) x0 g0 = None"
      by (simp only: e)
    then show ?thesis
      by (simp only: unfold None option.case)
  next
    case (Some r)
    obtain x' g' where r: "r = (x', g')" by (cases r)
    from langevin_steps_rank [of model _ _ _ x g x' g'] Some r sh
    have ne': "shape x' \<noteq> []" by auto
    have "annealed model sigmas eps (nat T) (\<lambda>x. hd (shape x)) (Suc k) x0 g0 = Some (x', g')"
      by (simp only: next_level Some r)
    from Cons.IH [OF rest _ this ne'] k
    have "levels_loop model sigmas eps T (enumerate (Suc k) rest) x' g' =
        annealed model sigmas eps (nat T) (\<lambda>x. hd (shape x)) (length sigmas) x0 g0"
      by simp
    then show ?thesis
      by (simp only: unfold Some r option.case prod.case)
  qed
qed

lemma levels_loop_annealed:
  assumes "shape batch \<noteq> []"
  shows "levels_loop model sigmas eps T (enumerate 0 sigmas) batch g =
         annealed model sigmas eps (nat T) (\<lambda>x. hd (shape x)) (length sigmas) batch g"
  using levels_loop_from [of sigmas 0 sigmas model eps T batch g batch g] assms by simp

lemma levels_loop_total:
  assumes "\<forall>x idx. shape (model x idx) = shape x" "shape batch \<noteq> []"
  shows "\<exists>batch' g'. levels_loop model sigmas eps T levels batch g = Some (batch', g') \<and>
           shape batch' = shape batch"
  using assms(2)
proof (induction levels arbitrary: batch g)
  case Nil
  show ?case by simp
next
  case (Cons l levels)
  obtain i sigma_i where l: "l = (i, sigma_i)" by (cases l)
  obtain n s where sh: "shape batch = n # s"
    using Cons.prems by (cases "shape batch") auto
  from langevin_steps_total [OF assms(1)] obtain y h where
    st: "langevin_steps model (tmap (\<lambda>one. one * int i) (tf_ones n))
           (eps * (sigma_i / last sigmas)\<^sup>2) (length [0..<nat T]) batch g = Some (y, h)" and
    sy: "shape y = shape batch"
    by blast
  from Cons.IH [of y h] sy Cons.prems obtain batch' g' where
    "levels_loop model sigmas eps T levels y h = Some (batch', g')" "shape batch' = shape y"
    by auto
  with st sy show ?case
    by (simp add: l sh steps_loop_langevin)
qed

lemma save_as_grid_image:
  assumes "shape images = [n, h, w, c]" "0 < h" "0 < w" "c = 1 \<or> c = 3 \<or> c = 4"
  shows "save_as_grid images filename files = Some (files @ [(filename, images)])"
  using assms by (auto simp add: save_as_grid_def)

lemma langevin_steps_snoc:
  "langevin_steps model idx alpha (Suc a) x g =
     (case langevin_steps model idx alpha a x g of
        None \<Rightarrow> None
      | Some (y, h) \<Rightarrow> sample_one_step model y idx alpha h)"
proof (induction a arbitrary: x g)
  case 0
  show ?case by (cases "sample_one_step model x idx alpha g") auto
next
  case (Suc a)
  show ?case
  proof (cases "sample_one_step model x idx alpha g")
    case None
    then show ?thesis by simp
  next
    case (Some r)
    obtain y h where r: "r = (y, h)" by (cases r)
    have "langevin_steps model idx alpha (Suc (Suc a)) x g = langevin_steps model idx alpha (Suc a) y h"
      using Some r by simp
    also have "\<dots> = (case langevin_steps model idx alpha a y h of
        None \<Rightarrow> None | Some (y', h') \<Rightarrow> sample_one_step model y' idx alpha h')"
      by (rule Suc.IH)
    also have "langevin_steps model idx alpha a y h = langevin_steps model idx alpha (Suc a) x g"
      using Some r by simp
    finally show ?thesis .
  qed
qed

lemma sas_steps_files:
  assumes "\<forall>x idx. shape (model x idx) = shape x"
    and "0 < hgt" "0 < wid" "ch = 1 \<or> ch = 3 \<or> ch = 4" "shape x = [n, hgt, wid, ch]"
    and "langevin_steps model idx alpha a xs gs = Some (x, g)"
  shows "\<exists>x' g' new.
           sas_steps model dir i idx alpha [a..<a + len] x g files = Some (x', g', files @ new) \<and>
           langevin_steps model idx alpha (a + len) xs gs = Some (x', g') \<and>
           shape x' = shape x \<and>
           list_all (\<lambda>((d, i1, t1), tn). d = dir \<and> i1 = i + 1 \<and> t1 mod 10 = 0 \<and>
              map_option fst (langevin_steps model idx alpha t1 xs gs) = Some tn) new"
  using assms(5,6)
proof (induction len arbitrary: a x g files)
  case 0
  then show ?case by simp
next
  case (Suc len)
  from assms(1) obtain y h where
    s: "sample_one_step model x idx alpha g = Some (y, h)" and sy: "shape y = shape x"
    using sample_one_step_total [of model x idx alpha g] by auto
  from sy Suc.prems(1) have r4: "shape y = [n, hgt, wid, ch]" by simp
  have nxt: "langevin_steps model idx alpha (Suc a) xs gs = Some (y, h)"
    by (simp only: langevin_steps_snoc [of model idx alpha a xs gs] Suc.prems(2) option.case prod.case s)
  define one where "one = (if (a + 1) mod 10 = 0 then [((dir, i + 1, a + 1), y)] else [])"
  have f: "(if (a + 1) mod 10 = 0 then save_as_grid y (dir, i + 1, a + 1) files else Some files) =
      Some (files @ one)"
    by (simp add: one_def save_as_grid_image [OF r4 assms(2-4)])
  have ok1: "list_all (\<lambda>((d, i1, t1), tn). d = dir \<and> i1 = i + 1 \<and> t1 mod 10 = 0 \<and>
              map_option fst (langevin_steps model idx alpha t1 xs gs) = Some tn) one"
    using nxt by (simp add: one_def)
  from Suc.IH [OF r4 nxt, of "files @ one"] obtain x' g' new where
    run: "sas_steps model dir i idx alpha [Suc a..<Suc a + len] y h (files @ one) =
        Some (x', g', (files @ one) @ new)" and
    lv: "langevin_steps model idx alpha (Suc a + len) xs gs = Some (x', g')" and
    sx: "shape x' = shape y" and
    ok: "list_all (\<lambda>((d, i1, t1), tn). d = dir \<and> i1 = i + 1 \<and> t1 mod 10 = 0 \<and>
              map_option fst (langevin_steps model idx alpha t1 xs gs) = Some tn) new"
    by blast
  have up: "[a..<a + Suc len] = a # [Suc a..<Suc a + len]"
    by (simp add: upt_conv_Cons)
  have step: "sas_steps model dir i idx alpha (a # rest) x g files =
      sas_steps model dir i idx alpha rest y h (files @ one)" for rest
    using f by (cases "(a + 1) mod 10 = 0") (simp_all add: s)
  have A: "sas_steps model dir i idx alpha [a..<a + Suc len] x g files =
      Some (x', g', files @ (one @ new))"
    using run by (simp only: up step append_assoc)
  have B: "langevin_steps model idx alpha (a + Suc len) xs gs = Some (x', g')"
    using lv by simp
  have C: "shape x' = shape x"
    using sx sy by simp
  have D: "list_all (\<lambda>((d, i1, t1), tn). d = dir \<and> i1 = i + 1 \<and> t1 mod 10 = 0 \<and>
              map_option fst (langevin_steps model idx alpha t1 xs gs) = Some tn) (one @ new)"
    using ok1 ok by simp
  show ?case
    by (rule exI [of _ x'], rule exI [of _ g'], rule exI [of _ "one @ new"]) (intro conjI A B C D)
qed

lemma sas_levels_files:
  assumes "\<forall>x idx. shape (model x idx) = shape x"
    and "rest = drop k sigmas" "k \<le> length sigmas"
    and "annealed model sigmas eps (nat T) (\<lambda>x. nat n) k x0 g0 = Some (x, g)"
    and "0 < hgt" "0 < wid" "ch = 1 \<or> ch = 3 \<or> ch = 4" "shape x = [m, hgt, wid, ch]"
  shows "\<exists>x' g' new.
           sas_levels model sigmas eps T n dir (enumerate k rest) x g files =
             Some (x', g', files @ new) \<and>
           annealed model sigmas eps (nat T) (\<lambda>x. nat n) (length sigmas) x0 g0 = Some (x', g') \<and>
           shape x' = shape x \<and>
           list_all (\<lambda>((d, i1, t1), tn). d = dir \<and> 0 < i1 \<and> t1 mod 10 = 0 \<and>
              map_option fst (state_at model sigmas eps (nat T) (nat n) (i1 - 1) t1 x0 g0) = Some tn)
             new"
  using assms(2-4,8)
proof (induction rest arbitrary: k x g files)
  case Nil
  then have "k = length sigmas" by simp
  with Nil show ?case by simp
next
  case (Cons sigma_i rest)
  let ?Q = "\<lambda>((d, i1, t1), tn). d = dir \<and> 0 < i1 \<and> t1 mod 10 = 0 \<and>
      map_option fst (state_at model sigmas eps (nat T) (nat n) (i1 - 1) t1 x0 g0) = Some tn"
  from Cons.prems(1,2) have k: "k < length sigmas"
    by (metis drop_all leI list.distinct(1))
  from Cons.prems(1) k have sig: "sigma_i = sigmas ! k" and rest: "rest = drop (Suc k) sigmas"
    by (simp_all add: Cons_nth_drop_Suc [symmetric])
  from k have ne: "sigmas \<noteq> []" by auto
  have alpha: "eps * (sigma_i / last sigmas)\<^sup>2 = level_alpha sigmas eps k"
    using ne by (simp add: level_alpha_def sig last_conv_nth)
  have start: "langevin_steps model (level_index (nat n) k) (level_alpha sigmas eps k) 0 x g = Some (x, g)"
    by simp
  from sas_steps_files [OF assms(1,5-7) Cons.prems(4) start, of dir k "nat T" files]
  obtain y h new1 where
    st: "sas_steps model dir k (level_index (nat n) k) (level_alpha sigmas eps k) [0..<nat T] x g files =
          Some (y, h, files @ new1)" and
    lv: "langevin_steps model (level_index (nat n) k) (level_alpha sigmas eps k) (nat T) x g = Some (y, h)" and
    sy: "shape y = shape x" and
    ok1: "list_all (\<lambda>((d, i1, t1), tn). d = dir \<and> i1 = k + 1 \<and> t1 mod 10 = 0 \<and>
        map_option fst (langevin_steps model (level_index (nat n) k) (level_alpha sigmas eps k) t1 x g) =
          Some tn) new1"
    by auto
  have at_k: "state_at model sigmas eps (nat T) (nat n) k t x0 g0 =
      langevin_steps model (level_index (nat n) k) (level_alpha sigmas eps k) t x g" for t
    by (simp add: state_at_def Cons.prems(3))
  have q1: "list_all ?Q new1"
    using ok1 by (auto simp add: list_all_iff at_k)
  have nxt: "annealed model sigmas eps (nat T) (\<lambda>x. nat n) (Suc k) x0 g0 = Some (y, h)"
    by (simp add: Cons.prems(3) lv)
  from sy Cons.prems(4) have r4: "shape y = [m, hgt, wid, ch]" by simp
  from Cons.IH [OF rest _ nxt r4, of "files @ new1"] k obtain x' g' new2 where
    run: "sas_levels model sigmas eps T n dir (enumerate (Suc k) rest) y h (files @ new1) =
        Some (x', g', (files @ new1) @ new2)" and
    an: "annealed model sigmas eps (nat T) (\<lambda>x. nat n) (length sigmas) x0 g0 = Some (x', g')" and
    sx: "shape x' = shape y" and
    q2: "list_all ?Q new2"
    by auto
  have A: "sas_levels model sigmas eps T n dir (enumerate k (sigma_i # rest)) x g files =
      Some (x', g', files @ (new1 @ new2))"
    using st run by (simp add: alpha level_index_ones)
  have C: "shape x' = shape x" using sx sy by simp
  have D: "list_all ?Q (new1 @ new2)" using q1 q2 by simp
  show ?case
    by (rule exI [of _ x'], rule exI [of _ g'], rule exI [of _ "new1 @ new2"]) (intro conjI A an C D)
qed

lemma sample_and_save_files:
  assumes "\<forall>x idx. shape (model x idx) = shape x"
    and "0 < H" "0 < W" "C = 1 \<or> C = 3 \<or> C = 4" "0 \<le> n_images"
  shows "\<exists>x g' files.
           sample_and_save model sigmas eps T n_images (Some dir) [H, W, C] g =
             Some (x, g', files) \<and>
           annealed model sigmas eps (nat T) (\<lambda>x. nat n_images) (length sigmas)
             (fst (random_uniform [nat n_images, H, W, C] g))
             (snd (random_uniform [nat n_images, H, W, C] g)) = Some (x, g') \<and>
           shape x = [nat n_images, H, W, C] \<and>
           list_all (\<lambda>((d, i1, t1), tn). d = dir \<and> 0 < i1 \<and> t1 mod 10 = 0 \<and>
              map_option fst (state_at model sigmas eps (nat T) (nat n_images) (i1 - 1) t1
                (fst (random_uniform [nat n_images, H, W, C] g))
                (snd (random_uniform [nat n_images, H, W, C] g))) = Some tn) files"
proof -
  obtain x0 g0 where u: "random_uniform [nat n_images, H, W, C] g = (x0, g0)"
    by (cases "random_uniform [nat n_images, H, W, C] g")
  have s0: "shape x0 = [nat n_images, H, W, C]"
    using shape_random_uniform [of "[nat n_images, H, W, C]" g] u by simp
  have start: "annealed model sigmas eps (nat T) (\<lambda>x. nat n_images) 0 x0 g0 = Some (x0, g0)"
    by simp
  have "\<exists>x' g' new.
      sas_levels model sigmas eps T n_images dir (enumerate 0 (drop 0 sigmas)) x0 g0 [] =
        Some (x', g', [] @ new) \<and>
      annealed model sigmas eps (nat T) (\<lambda>x. nat n_images) (length sigmas) x0 g0 = Some (x', g') \<and>
      shape x' = shape x0 \<and>
      list_all (\<lambda>((d, i1, t1), tn). d = dir \<and> 0 < i1 \<and> t1 mod 10 = 0 \<and>
         map_option fst (state_at model sigmas eps (nat T) (nat n_images) (i1 - 1) t1 x0 g0) = Some tn)
        new"
    by (rule sas_levels_files [OF assms(1) refl _ start assms(2-4) s0]) simp
  then obtain x' g' new where
    "sas_levels model sigmas eps T n_images dir (enumerate 0 sigmas) x0 g0 [] = Some (x', g', new)"
    "annealed model sigmas eps (nat T) (\<lambda>x. nat n_images) (length sigmas) x0 g0 = Some (x', g')"
    "shape x' = shape x0"
    "list_all (\<lambda>((d, i1, t1), tn). d = dir \<and> 0 < i1 \<and> t1 mod 10 = 0 \<and>
       map_option fst (state_at model sigmas eps (nat T) (nat n_images) (i1 - 1) t1 x0 g0) = Some tn)
      new"
    by auto
  with assms(5) s0 show ?thesis
    by (simp add: sample_and_save_def u)
qed

text \<open>
  Claim C2. The loop over the noise levels computes, for the level at position \<open>i\<close>,
  the step size \<open>eps * (sigma_i / sigma_L)\<^sup>2\<close> with the last noise level, runs its \<open>T\<close> steps
  with the constant index vector of value \<open>i\<close>, as long as the batch in \<open>sample_many\<close>
  and of length \<open>n_images\<close> in \<open>sample_and_save\<close>, and starts each level from the state
  the level before has left. For \<open>sample_and_save\<close> the score model keeps the shape of
  the state and the images have pixels and 1, 3 or 4 channels, so that every grid can
  be saved.
\<close>

theorem annealed_sampling_chain:
  assumes "shape batch \<noteq> []"
    and "\<forall>x idx. shape (model x idx) = shape x"
    and "0 < H" "0 < W" "C = 1 \<or> C = 3 \<or> C = 4" "0 \<le> n_images"
  shows "levels_loop model sigmas eps T (enumerate 0 sigmas) batch g =
           annealed model sigmas eps (nat T) (\<lambda>x. hd (shape x)) (length sigmas) batch g \<and>
         (\<exists>x g' files.
            sample_and_save model sigmas eps T n_images (Some dir) [H, W, C] g =
              Some (x, g', files) \<and>
            annealed model sigmas eps (nat T) (\<lambda>x. nat n_images) (length sigmas)
              (fst (random_uniform [nat n_images, H, W, C] g))
              (snd (random_uniform [nat n_images, H, W, C] g)) = Some (x, g') \<and>
            shape x = [nat n_images, H, W, C])"
proof -
  from sample_and_save_files [OF assms(2-6), of sigmas eps T dir g] obtain x g' files where
    "sample_and_save model sigmas eps T n_images (Some dir) [H, W, C] g = Some (x, g', files)"
    "annealed model sigmas eps (nat T) (\<lambda>x. nat n_images) (length sigmas)
       (fst (random_uniform [nat n_images, H, W, C] g))
       (snd (random_uniform [nat n_images, H, W, C] g)) = Some (x, g')"
    "shape x = [nat n_images, H, W, C]"
    by blast
  with levels_loop_annealed [OF assms(1)] show ?thesis by blast
qed

theorem annealed_sampling_chain_witness:
  "levels_loop (\<lambda>x idx. x) [2, 1] (1/2) 1 (enumerate 0 [2, 1]) (Tensor [2, 1, 1, 1] (\<lambda>idx. 0))
       \<lparr>normal_src = (\<lambda>k. 1), uniform_src = (\<lambda>k. 1/2)\<rparr> =
     annealed (\<lambda>x idx. x) [2, 1] (1/2) (nat 1) (\<lambda>x. hd (shape x)) (length [2, 1 :: real])
       (Tensor [2, 1, 1, 1] (\<lambda>idx. 0)) \<lparr>normal_src = (\<lambda>k. 1), uniform_src = (\<lambda>k. 1/2)\<rparr> \<and>
   (\<exists>x g' files.
      sample_and_save (\<lambda>x idx. x) [2, 1] (1/2) 1 2 (Some ''samples/'') [1, 1, 1]
        \<lparr>normal_src = (\<lambda>k. 1), uniform_src = (\<lambda>k. 1/2)\<rparr> = Some (x, g', files) \<and>
      annealed (\<lambda>x idx. x) [2, 1] (1/2) (nat 1) (\<lambda>x. nat 2) (length [2, 1 :: real])
        (fst (random_uniform [nat 2, 1, 1, 1] \<lparr>normal_src = (\<lambda>k. 1), uniform_src = (\<lambda>k. 1/2)\<rparr>))
        (snd (random_uniform [nat 2, 1, 1, 1] \<lparr>normal_src = (\<lambda>k. 1), uniform_src = (\<lambda>k. 1/2)\<rparr>)) =
        Some (x, g') \<and>
      shape x = [nat 2, 1, 1, 1]) \<and>
   level_alpha [2, 1] (1/2) 0 = 2 \<and> level_alpha [2, 1] (1/2) 1 = 1/2 \<and>
   level_index 2 1 = Tensor [2] (\<lambda>idx. 1)"
proof -
  have h: "shape (Tensor [2, 1, 1, 1] (\<lambda>idx. 0 :: real)) \<noteq> []"
    "\<forall>x idx. shape ((\<lambda>(x :: real tensor) (idx :: int tensor). x) x idx) = shape x"
    "0 < (1 :: nat)" "0 < (1 :: nat)" "(1 :: nat) = 1 \<or> (1 :: nat) = 3 \<or> (1 :: nat) = 4"
    "(0 :: int) \<le> 2"
    by simp_all
  note chain = annealed_sampling_chain [OF h, where sigmas = "[2, 1]" and eps = "1/2" and T = 1
      and g = "\<lparr>normal_src = (\<lambda>k. 1), uniform_src = (\<lambda>k. 1/2)\<rparr>" and dir = "''samples/''"]
  have levels: "level_alpha [2, 1] (1/2) 0 = 2" "level_alpha [2, 1] (1/2) 1 = 1/2"
    "level_index 2 1 = Tensor [2] (\<lambda>idx. 1)"
    by (simp_all add: level_alpha_def level_index_def)
  from chain levels show ?thesis by blast
qed

text \<open>
  Claim C9. With a schedule of one level and \<open>T = 1\<close> both samplers apply
  \<open>sample_one_step\<close> once, to the uniform noise or to the batch, with the index vector of
  zeros and the step size \<open>eps\<close>, and return its result; no grid is saved.
\<close>

theorem single_level_single_step:
  assumes "sigma \<noteq> 0" "0 \<le> n_images" "shape batch = n # s"
  shows "sample_and_save model [sigma] eps 1 n_images (Some dir) dataset_image_size g =
           (case random_uniform (nat n_images # dataset_image_size) g of
              (x0, g0) \<Rightarrow>
                map_option (\<lambda>(x, g'). (x, g', []))
                  (sample_one_step model x0 (Tensor [nat n_images] (\<lambda>idx. 0)) eps g0)) \<and>
         levels_loop model [sigma] eps 1 (enumerate 0 [sigma]) batch g =
           sample_one_step model batch (Tensor [n] (\<lambda>idx. 0)) eps g"
proof
  obtain x0 g0 where u: "random_uniform (nat n_images # dataset_image_size) g = (x0, g0)"
    by (cases "random_uniform (nat n_images # dataset_image_size) g")
  show "sample_and_save model [sigma] eps 1 n_images (Some dir) dataset_image_size g =
           (case random_uniform (nat n_images # dataset_image_size) g of
              (x0, g0) \<Rightarrow>
                map_option (\<lambda>(x, g'). (x, g', []))
                  (sample_one_step model x0 (Tensor [nat n_images] (\<lambda>idx. 0)) eps g0))"
    using assms(1,2)
    by (cases "sample_one_step model x0 (Tensor [nat n_images] (\<lambda>idx. 0)) eps g0")
       (auto simp add: sample_and_save_def u enumerate_eq_zip tmap_def tf_ones_def)
  show "levels_loop model [sigma] eps 1 (enumerate 0 [sigma]) batch g =
           sample_one_step model batch (Tensor [n] (\<lambda>idx. 0)) eps g"
    using assms(1,3)
    by (cases "sample_one_step model batch (Tensor [n] (\<lambda>idx. 0)) eps g")
       (auto simp add: enumerate_eq_zip tmap_def tf_ones_def)
qed

theorem single_level_single_step_witness:
  "sample_and_save (\<lambda>x idx. x) [2] (1/2) 1 1 (Some ''samples/'') [1, 1, 1]
       \<lparr>normal_src = (\<lambda>k. 1), uniform_src = (\<lambda>k. 1/2)\<rparr> =
     (case random_uniform (nat 1 # [1, 1, 1]) \<lparr>normal_src = (\<lambda>k. 1), uniform_src = (\<lambda>k. 1/2)\<rparr> of
        (x0, g0) \<Rightarrow>
          map_option (\<lambda>(x, g'). (x, g', []))
            (sample_one_step (\<lambda>x idx. x) x0 (Tensor [nat 1] (\<lambda>idx. 0)) (1/2) g0)) \<and>
   levels_loop (\<lambda>x idx. x) [2] (1/2) 1 (enumerate 0 [2]) (Tensor [1, 1, 1, 1] (\<lambda>idx. 0))
       \<lparr>normal_src = (\<lambda>k. 1), uniform_src = (\<lambda>k. 1/2)\<rparr> =
     sample_one_step (\<lambda>x idx. x) (Tensor [1, 1, 1, 1] (\<lambda>idx. 0)) (Tensor [1] (\<lambda>idx. 0)) (1/2)
       \<lparr>normal_src = (\<lambda>k. 1), uniform_src = (\<lambda>k. 1/2)\<rparr>"
  by (rule single_level_single_step) simp_all

section \<open>Sub-batches\<close>

lemma ceil_div_covers:
  assumes "0 < (b::nat)"
  shows "n \<le> ((n + b - 1) div b) * b"
proof -
  have "n + b - 1 = ((n + b - 1) div b) * b + (n + b - 1) mod b"
    by simp
  moreover have "(n + b - 1) mod b < b" using assms by simp
  ultimately show ?thesis by linarith
qed

lemma ceil_div_pred:
  assumes "0 < (b::nat)" "k < (n + b - 1) div b"
  shows "k * b < n"
proof -
  have "Suc k \<le> (n + b - 1) div b" using assms by simp
  then have "Suc k * b \<le> ((n + b - 1) div b) * b"
    by (rule mult_le_mono1)
  also have "\<dots> \<le> n + b - 1" by simp
  finally show ?thesis using assms by simp
qed

lemma batch_rows_cases:
  assumes "0 < (b::nat)" "k < (n + b - 1) div b"
  shows "min b (n - k * b) = (if Suc k < (n + b - 1) div b then b else n - k * b)"
    and "0 < min b (n - k * b)"
proof -
  have lt: "k * b < n" using assms by (rule ceil_div_pred)
  show "0 < min b (n - k * b)" using lt assms(1) by simp
  show "min b (n - k * b) = (if Suc k < (n + b - 1) div b then b else n - k * b)"
  proof (cases "Suc k < (n + b - 1) div b")
    case True
    then have "Suc k * b < n" using assms(1) by (intro ceil_div_pred)
    then show ?thesis using True by simp
  next
    case False
    with assms(2) have "(n + b - 1) div b = Suc k" by simp
    with ceil_div_covers [OF assms(1), of n] have "n \<le> Suc k * b" by simp
    then show ?thesis using False by simp
  qed
qed

lemma batch_rows_sum:
  "sum_list (map (\<lambda>k. min b (n - k * b)) [0..<j]) = min n (j * b)"
  by (induction j) auto

lemma batches_loop_concat:
  assumes "\<forall>x idx. shape (model x idx) = shape x"
    and "list_all (\<lambda>b. \<exists>r. shape b = r # s) batches" "shape t0 = m # s"
  shows "\<exists>t g' outs.
           batches_loop model sigmas eps T batches (Processed t0) g = Some (Processed t, g') \<and>
           annealed_batches model sigmas eps (nat T) batches g = Some (outs, g') \<and>
           length outs = length batches \<and>
           shape t = (m + sum_list (map (\<lambda>b. hd (shape b)) batches)) # s \<and>
           (\<forall>i<m. \<forall>idx. elem t (i # idx) = elem t0 (i # idx)) \<and>
           (\<forall>k<length batches. \<forall>r<hd (shape (batches ! k)). \<forall>idx.
              elem t ((m + sum_list (map (\<lambda>b. hd (shape b)) (take k batches)) + r) # idx) =
              elem (outs ! k) (r # idx))"
  using assms(2,3)
proof (induction batches arbitrary: t0 m g)
  case Nil
  then show ?case by simp
next
  case (Cons batch batches)
  from Cons.prems(1) obtain r0 where sb: "shape batch = r0 # s" by auto
  then have ne: "shape batch \<noteq> []" by simp
  from levels_loop_total [OF assms(1) ne, of sigmas eps T "enumerate 0 sigmas" g] sb
  obtain out g1 where
    lv: "levels_loop model sigmas eps T (enumerate 0 sigmas) batch g = Some (out, g1)" and
    so: "shape out = r0 # s"
    by auto
  have an: "annealed model sigmas eps (nat T) (\<lambda>y. hd (shape batch)) (length sigmas) batch g =
      Some (out, g1)"
    using lv by (simp add: levels_loop_annealed [OF ne] annealed_rows_fixed [OF assms(1)])
  define t1 where "t1 = Tensor ((m + r0) # s)
     (\<lambda>idx. case idx of [] \<Rightarrow> elem t0 []
        | i # q \<Rightarrow> if i < m then elem t0 (i # q) else elem out ((i - m) # q))"
  have cc: "tf_concat0 t0 out = Some t1"
    by (simp add: tf_concat0_def Cons.prems(2) so t1_def)
  have s1: "shape t1 = (m + r0) # s" by (simp add: t1_def)
  from Cons.prems(1) have rest: "list_all (\<lambda>b. \<exists>r. shape b = r # s) batches" by simp
  from Cons.IH [OF rest s1, of g1] obtain t g' outs where
    run: "batches_loop model sigmas eps T batches (Processed t1) g1 = Some (Processed t, g')" and
    ab: "annealed_batches model sigmas eps (nat T) batches g1 = Some (outs, g')" and
    len: "length outs = length batches" and
    st: "shape t = (m + r0 + sum_list (map (\<lambda>b. hd (shape b)) batches)) # s" and
    low: "\<forall>i<m + r0. \<forall>idx. elem t (i # idx) = elem t1 (i # idx)" and
    high: "\<forall>k<length batches. \<forall>r<hd (shape (batches ! k)). \<forall>idx.
        elem t ((m + r0 + sum_list (map (\<lambda>b. hd (shape b)) (take k batches)) + r) # idx) =
        elem (outs ! k) (r # idx)"
    by blast
  have A: "batches_loop model sigmas eps T (batch # batches) (Processed t0) g = Some (Processed t, g')"
    by (simp add: lv cc run)
  have B: "annealed_batches model sigmas eps (nat T) (batch # batches) g = Some (out # outs, g')"
    by (simp add: an ab)
  have C: "length (out # outs) = length (batch # batches)"
    using len by simp
  have D: "shape t = (m + sum_list (map (\<lambda>b. hd (shape b)) (batch # batches))) # s"
    using st sb by (simp add: add.assoc)
  have E: "\<forall>i<m. \<forall>idx. elem t (i # idx) = elem t0 (i # idx)"
    using low by (simp add: t1_def)
  have F: "\<forall>k<length (batch # batches). \<forall>r<hd (shape ((batch # batches) ! k)). \<forall>idx.
      elem t ((m + sum_list (map (\<lambda>b. hd (shape b)) (take k (batch # batches))) + r) # idx) =
      elem ((out # outs) ! k) (r # idx)"
  proof (intro allI impI)
    fix k r idx
    assume k: "k < length (batch # batches)" and r: "r < hd (shape ((batch # batches) ! k))"
    show "elem t ((m + sum_list (map (\<lambda>b. hd (shape b)) (take k (batch # batches))) + r) # idx) =
        elem ((out # outs) ! k) (r # idx)"
    proof (cases k)
      case 0
      with r sb have "r < r0" by simp
      then have "elem t ((m + r) # idx) = elem t1 ((m + r) # idx)"
        using low by simp
      also have "\<dots> = elem out (r # idx)"
        by (simp add: t1_def)
      finally show ?thesis using 0 by simp
    next
      case (Suc k')
      with k r have "k' < length batches" "r < hd (shape (batches ! k'))" by simp_all
      with high have "elem t ((m + r0 + sum_list (map (\<lambda>b. hd (shape b)) (take k' batches)) + r) # idx) =
          elem (outs ! k') (r # idx)"
        by blast
      then show ?thesis using Suc sb by (simp add: add.assoc)
    qed
  qed
  show ?case
    by (rule exI [of _ t], rule exI [of _ g'], rule exI [of _ "out # outs"])
       (intro conjI A B C D E F)
qed

lemma batches_loop_concat_first:
  assumes "\<forall>x idx. shape (model x idx) = shape x"
    and "list_all (\<lambda>b. \<exists>r. shape b = r # s) batches" "batches \<noteq> []"
  shows "\<exists>t g' outs.
           batches_loop model sigmas eps T batches PyNone g = Some (Processed t, g') \<and>
           annealed_batches model sigmas eps (nat T) batches g = Some (outs, g') \<and>
           length outs = length batches \<and>
           shape t = sum_list (map (\<lambda>b. hd (shape b)) batches) # s \<and>
           (\<forall>k<length batches. \<forall>r<hd (shape (batches ! k)). \<forall>idx.
              elem t ((sum_list (map (\<lambda>b. hd (shape b)) (take k batches)) + r) # idx) =
              elem (outs ! k) (r # idx))"
proof -
  from assms(3) obtain batch rest where b: "batches = batch # rest" by (cases batches) auto
  with assms(2) obtain r0 where sb: "shape batch = r0 # s" by auto
  then have ne: "shape batch \<noteq> []" by simp
  from levels_loop_total [OF assms(1) ne, of sigmas eps T "enumerate 0 sigmas" g] sb
  obtain out g1 where
    lv: "levels_loop model sigmas eps T (enumerate 0 sigmas) batch g = Some (out, g1)" and
    so: "shape out = r0 # s"
    by auto
  have an: "annealed model sigmas eps (nat T) (\<lambda>y. hd (shape batch)) (length sigmas) batch g =
      Some (out, g1)"
    using lv by (simp add: levels_loop_annealed [OF ne] annealed_rows_fixed [OF assms(1)])
  from assms(2) b have rest: "list_all (\<lambda>b. \<exists>r. shape b = r # s) rest" by simp
  from batches_loop_concat [OF assms(1) rest so, of sigmas eps T g1] obtain t g' outs where
    run: "batches_loop model sigmas eps T rest (Processed out) g1 = Some (Processed t, g')" and
    ab: "annealed_batches model sigmas eps (nat T) rest g1 = Some (outs, g')" and
    len: "length outs = length rest" and
    st: "shape t = (r0 + sum_list (map (\<lambda>b. hd (shape b)) rest)) # s" and
    low: "\<forall>i<r0. \<forall>idx. elem t (i # idx) = elem out (i # idx)" and
    high: "\<forall>k<length rest. \<forall>r<hd (shape (rest ! k)). \<forall>idx.
        elem t ((r0 + sum_list (map (\<lambda>b. hd (shape b)) (take k rest)) + r) # idx) =
        elem (outs ! k) (r # idx)"
    by blast
  have A: "batches_loop model sigmas eps T batches PyNone g = Some (Processed t, g')"
    by (simp add: b lv run)
  have B: "annealed_batches model sigmas eps (nat T) batches g = Some (out # outs, g')"
    by (simp add: b an ab)
  have C: "length (out # outs) = length batches"
    using len b by simp
  have D: "shape t = sum_list (map (\<lambda>b. hd (shape b)) batches) # s"
    using st sb b by simp
  have F: "\<forall>k<length batches. \<forall>r<hd (shape (batches ! k)). \<forall>idx.
      elem t ((sum_list (map (\<lambda>b. hd (shape b)) (take k batches)) + r) # idx) =
      elem ((out # outs) ! k) (r # idx)"
  proof (intro allI impI)
    fix k r idx
    assume k: "k < length batches" and r: "r < hd (shape (batches ! k))"
    show "elem t ((sum_list (map (\<lambda>b. hd (shape b)) (take k batches)) + r) # idx) =
        elem ((out # outs) ! k) (r # idx)"
    proof (cases k)
      case 0
      with r sb b have "r < r0" by simp
      with low have "elem t (r # idx) = elem out (r # idx)" by simp
      then show ?thesis using 0 by simp
    next
      case (Suc k')
      with k r b have "k' < length rest" "r < hd (shape (rest ! k'))" by simp_all
      with high have "elem t ((r0 + sum_list (map (\<lambda>b. hd (shape b)) (take k' rest)) + r) # idx) =
          elem (outs ! k') (r # idx)"
        by blast
      then show ?thesis using Suc sb b by simp
    qed
  qed
  show ?thesis
    by (rule exI [of _ t], rule exI [of _ g'], rule exI [of _ "out # outs"])
       (intro conjI A B C D F)
qed

lemma dataset_batch_rows:
  assumes "shape x = n # s" "0 < batch_size"
  shows "\<exists>batches. dataset_batch batch_size x = Some batches \<and>
           length batches = (n + nat batch_size - 1) div nat batch_size \<and>
           list_all (\<lambda>b. \<exists>r. shape b = r # s) batches \<and>
           map (\<lambda>b. hd (shape b)) batches =
             map (\<lambda>k. min (nat batch_size) (n - k * nat batch_size))
               [0..<(n + nat batch_size - 1) div nat batch_size]"
  using assms
  by (simp add: dataset_batch_def Let_def list_all_iff comp_def)

lemma annealed_batches_shapes:
  assumes "\<forall>x idx. shape (model x idx) = shape x"
  shows "annealed_batches model sigmas eps T batches g = Some (outs, g') \<Longrightarrow>
         list_all2 (\<lambda>out batch. shape out = shape batch) outs batches"
proof (induction batches arbitrary: g outs)
  case Nil
  then show ?case by simp
next
  case (Cons batch batches)
  from annealed_shape [OF assms, of sigmas eps T "\<lambda>y. hd (shape batch)" "length sigmas" batch g]
  obtain out g1 where
    an: "annealed model sigmas eps T (\<lambda>y. hd (shape batch)) (length sigmas) batch g = Some (out, g1)"
    and so: "shape out = shape batch"
    by blast
  from Cons.prems an obtain rest where
    ab: "annealed_batches model sigmas eps T batches g1 = Some (rest, g')" and o: "outs = out # rest"
    by (auto split: bind_splits)
  from Cons.IH [OF ab] so o show ?case by simp
qed

lemma batch_offsets:
  assumes "0 < (b::nat)" "k < (n + b - 1) div b"
  shows "sum_list (map (\<lambda>j. min b (n - j * b)) [0..<k]) = k * b"
proof -
  have "k * b < n" using assms by (rule ceil_div_pred)
  then show ?thesis by (simp add: batch_rows_sum)
qed

text \<open>
  Claim C10. For \<open>n_images \<ge> 1\<close>, \<open>batch_size \<ge> 1\<close> and a score model that keeps the
  shape of the state, \<open>sample_many\<close> gives what it gives for the batch size
  \<open>min batch_size n_images\<close>. The uniform tensor is cut into sub-batches of consecutive
  rows: all have this many rows but the last, which has the rows that remain, at least
  one, and their rows add up to \<open>n_images\<close>. Every sub-batch is annealed with index
  tensors as long as the sub-batch, and the result of \<open>sample_many\<close> has \<open>n_images\<close>
  rows: row \<open>r\<close> of the annealed sub-batch \<open>k\<close> is its row \<open>k * batch_size + r\<close>.
\<close>

theorem sample_many_sub_batches:
  assumes "\<forall>x idx. shape (model x idx) = shape x" "1 \<le> n_images" "1 \<le> batch_size"
  shows "sample_many model sigmas batch_size eps T n_images dataset_image_size g =
           sample_many model sigmas (min batch_size n_images) eps T n_images dataset_image_size g \<and>
         (\<exists>batches outs t g'.
            dataset_batch (min batch_size n_images)
              (fst (random_uniform (nat n_images # dataset_image_size) g)) = Some batches \<and>
            (\<forall>k<length batches.
               hd (shape (batches ! k)) =
                 (if Suc k < length batches then nat (min batch_size n_images)
                  else nat n_images - k * nat (min batch_size n_images)) \<and>
               0 < hd (shape (batches ! k)) \<and>
               hd (shape (batches ! k)) \<le> nat (min batch_size n_images) \<and>
               (\<forall>r<hd (shape (batches ! k)). \<forall>idx.
                  elem (batches ! k) (r # idx) =
                  elem (fst (random_uniform (nat n_images # dataset_image_size) g))
                    ((k * nat (min batch_size n_images) + r) # idx))) \<and>
            sum_list (map (\<lambda>b. hd (shape b)) batches) = nat n_images \<and>
            annealed_batches model sigmas eps (nat T) batches
              (snd (random_uniform (nat n_images # dataset_image_size) g)) = Some (outs, g') \<and>
            list_all2 (\<lambda>out batch. shape out = shape batch) outs batches \<and>
            sample_many model sigmas batch_size eps T n_images dataset_image_size g =
              Some (Processed t, g') \<and>
            shape t = nat n_images # dataset_image_size \<and>
            (\<forall>k<length batches. \<forall>r<hd (shape (batches ! k)). \<forall>idx.
               elem t ((k * nat (min batch_size n_images) + r) # idx) = elem (outs ! k) (r # idx)))"
proof -
  define b where "b = nat (min batch_size n_images)"
  define n where "n = nat n_images"
  define m where "m = (n + b - 1) div b"
  obtain x0 g0 where u: "random_uniform (nat n_images # dataset_image_size) g = (x0, g0)"
    by (cases "random_uniform (nat n_images # dataset_image_size) g")
  have s0: "shape x0 = n # dataset_image_size"
    using shape_random_uniform [of "nat n_images # dataset_image_size" g] u by (simp add: n_def)
  have bpos: "0 < b" and npos: "0 < n" and clamp_pos: "0 < min batch_size n_images"
    using assms(2,3) by (simp_all add: b_def n_def)
  from dataset_batch_rows [OF s0 clamp_pos] obtain batches where
    db: "dataset_batch (min batch_size n_images) x0 = Some batches" and
    len: "length batches = m" and
    shapes: "list_all (\<lambda>b. \<exists>r. shape b = r # dataset_image_size) batches" and
    rows: "map (\<lambda>b. hd (shape b)) batches = map (\<lambda>k. min b (n - k * b)) [0..<m]"
    by (auto simp add: b_def m_def)
  have row: "hd (shape (batches ! k)) = min b (n - k * b)" if "k < m" for k
  proof -
    have "map (\<lambda>b. hd (shape b)) batches ! k = map (\<lambda>k. min b (n - k * b)) [0..<m] ! k"
      by (simp only: rows)
    with that len show ?thesis by simp
  qed
  have slice: "elem (batches ! k) (r # idx) = elem x0 ((k * b + r) # idx)"
    if "k < length batches" for k r idx
  proof -
    from db s0 clamp_pos have "batches =
        map (\<lambda>k. Tensor (min b (n - k * b) # dataset_image_size)
               (\<lambda>idx. elem x0 (case idx of [] \<Rightarrow> [] | i # r \<Rightarrow> (k * b + i) # r)))
          [0..<(n + b - 1) div b]"
      unfolding b_def by (auto simp add: dataset_batch_def Let_def)
    with that len show ?thesis by (simp add: m_def)
  qed
  have per_batch: "hd (shape (batches ! k)) = (if Suc k < length batches then b else n - k * b) \<and>
      0 < hd (shape (batches ! k)) \<and> hd (shape (batches ! k)) \<le> b \<and>
      (\<forall>r<hd (shape (batches ! k)). \<forall>idx.
         elem (batches ! k) (r # idx) = elem x0 ((k * b + r) # idx))"
    if "k < length batches" for k
  proof -
    from that len have km: "k < (n + b - 1) div b" by (simp add: m_def)
    from that len have r: "hd (shape (batches ! k)) = min b (n - k * b)"
      by (simp add: row)
    have r1: "hd (shape (batches ! k)) = (if Suc k < length batches then b else n - k * b)"
      using batch_rows_cases(1) [OF bpos km] by (simp only: r len m_def)
    have r2: "0 < hd (shape (batches ! k))"
      using batch_rows_cases(2) [OF bpos km] by (simp only: r)
    have r3: "hd (shape (batches ! k)) \<le> b"
      by (simp only: r min.cobounded1)
    from r1 r2 r3 slice [OF that] show ?thesis by blast
  qed
  have "m * b \<ge> n" unfolding m_def using bpos by (rule ceil_div_covers)
  then have total: "sum_list (map (\<lambda>b. hd (shape b)) batches) = n"
    by (simp add: rows batch_rows_sum)
  have "0 < m"
  proof (rule ccontr)
    assume "\<not> 0 < m"
    with \<open>m * b \<ge> n\<close> npos show False by simp
  qed
  with len have ne: "batches \<noteq> []" by auto
  have offset: "sum_list (map (\<lambda>b. hd (shape b)) (take k batches)) = k * b"
    if "k < length batches" for k
  proof -
    from that len have km: "k < (n + b - 1) div b" by (simp add: m_def)
    have "map (\<lambda>b. hd (shape b)) (take k batches) = take k (map (\<lambda>b. hd (shape b)) batches)"
      by (simp add: take_map)
    also have "\<dots> = map (\<lambda>j. min b (n - j * b)) (take k [0..<m])"
      by (simp only: rows take_map)
    also have "take k [0..<m] = [0..<k]"
      using that len by simp
    finally show ?thesis
      using batch_offsets [OF bpos km] by simp
  qed
  from batches_loop_concat_first [OF assms(1) shapes ne, of sigmas eps T g0]
  obtain t g' outs where
    run: "batches_loop model sigmas eps T batches PyNone g0 = Some (Processed t, g')" and
    ab: "annealed_batches model sigmas eps (nat T) batches g0 = Some (outs, g')" and
    st: "shape t = sum_list (map (\<lambda>b. hd (shape b)) batches) # dataset_image_size" and
    rowsof: "\<forall>k<length batches. \<forall>r<hd (shape (batches ! k)). \<forall>idx.
        elem t ((sum_list (map (\<lambda>b. hd (shape b)) (take k batches)) + r) # idx) =
        elem (outs ! k) (r # idx)"
    by blast
  have sm: "sample_many model sigmas batch_size eps T n_images dataset_image_size g =
      Some (Processed t, g')"
    using assms(2) by (simp add: sample_many_def u db run)
  have clamp: "sample_many model sigmas batch_size eps T n_images dataset_image_size g =
      sample_many model sigmas (min batch_size n_images) eps T n_images dataset_image_size g"
    by (simp add: sample_many_def)
  have fx: "fst (random_uniform (nat n_images # dataset_image_size) g) = x0"
    by (simp add: u)
  have A: "dataset_batch (min batch_size n_images)
      (fst (random_uniform (nat n_images # dataset_image_size) g)) = Some batches"
    by (simp add: u db)
  have B: "\<forall>k<length batches.
      hd (shape (batches ! k)) =
        (if Suc k < length batches then nat (min batch_size n_images)
         else nat n_images - k * nat (min batch_size n_images)) \<and>
      0 < hd (shape (batches ! k)) \<and>
      hd (shape (batches ! k)) \<le> nat (min batch_size n_images) \<and>
      (\<forall>r<hd (shape (batches ! k)). \<forall>idx.
         elem (batches ! k) (r # idx) =
         elem (fst (random_uniform (nat n_images # dataset_image_size) g))
           ((k * nat (min batch_size n_images) + r) # idx))"
    using per_batch unfolding b_def n_def fx by blast
  have C: "sum_list (map (\<lambda>b. hd (shape b)) batches) = nat n_images"
    using total unfolding n_def .
  have D: "annealed_batches model sigmas eps (nat T) batches
      (snd (random_uniform (nat n_images # dataset_image_size) g)) = Some (outs, g')"
    by (simp add: u ab)
  have E: "list_all2 (\<lambda>out batch. shape out = shape batch) outs batches"
    using assms(1) ab by (rule annealed_batches_shapes)
  have G: "shape t = nat n_images # dataset_image_size"
    using st C by simp
  have H: "\<forall>k<length batches. \<forall>r<hd (shape (batches ! k)). \<forall>idx.
      elem t ((k * nat (min batch_size n_images) + r) # idx) = elem (outs ! k) (r # idx)"
    using rowsof offset unfolding b_def by simp
  have "\<exists>batches outs t g'.
      dataset_batch (min batch_size n_images)
        (fst (random_uniform (nat n_images # dataset_image_size) g)) = Some batches \<and>
      (\<forall>k<length batches.
         hd (shape (batches ! k)) =
           (if Suc k < length batches then nat (min batch_size n_images)
            else nat n_images - k * nat (min batch_size n_images)) \<and>
         0 < hd (shape (batches ! k)) \<and>
         hd (shape (batches ! k)) \<le> nat (min batch_size n_images) \<and>
         (\<forall>r<hd (shape (batches ! k)). \<forall>idx.
            elem (batches ! k) (r # idx) =
            elem (fst (random_uniform (nat n_images # dataset_image_size) g))
              ((k * nat (min batch_size n_images) + r) # idx))) \<and>
      sum_list (map (\<lambda>b. hd (shape b)) batches) = nat n_images \<and>
      annealed_batches model sigmas eps (nat T) batches
        (snd (random_uniform (nat n_images # dataset_image_size) g)) = Some (outs, g') \<and>
      list_all2 (\<lambda>out batch. shape out = shape batch) outs batches \<and>
      sample_many model sigmas batch_size eps T n_images dataset_image_size g =
        Some (Processed t, g') \<and>
      shape t = nat n_images # dataset_image_size \<and>
      (\<forall>k<length batches. \<forall>r<hd (shape (batches ! k)). \<forall>idx.
         elem t ((k * nat (min batch_size n_images) + r) # idx) = elem (outs ! k) (r # idx))"
    by (rule exI [of _ batches], rule exI [of _ outs], rule exI [of _ t], rule exI [of _ g'])
       (intro conjI A B C D E sm G H)
  with clamp show ?thesis by (rule conjI)
qed

theorem sample_many_sub_batches_witness:
  "\<exists>t g'. sample_many (\<lambda>x idx. x) [1] 2 (1/2) 1 3 [1, 1, 1]
        \<lparr>normal_src = (\<lambda>k. 1), uniform_src = (\<lambda>k. 1/2)\<rparr> = Some (Processed t, g') \<and>
      shape t = [3, 1, 1, 1] \<and> elem t [2, 0, 0, 0] = 7/4"
proof -
  let ?g = "\<lparr>normal_src = (\<lambda>k. 1 :: real), uniform_src = (\<lambda>k. 1/2 :: real)\<rparr>"
  have h: "\<forall>x idx. shape ((\<lambda>(x :: real tensor) (idx :: int tensor). x) x idx) = shape x"
    "(1 :: int) \<le> 3" "(1 :: int) \<le> 2"
    by simp_all
  from sample_many_sub_batches [OF h, where sigmas = "[1]" and eps = "1/2" and T = 1
      and dataset_image_size = "[1, 1, 1]" and g = ?g]
  obtain batches outs t g' where
    db: "dataset_batch (min 2 3) (fst (random_uniform (nat 3 # [1, 1, 1]) ?g)) = Some batches" and
    ab: "annealed_batches (\<lambda>x idx. x) [1] (1/2) (nat 1) batches
           (snd (random_uniform (nat 3 # [1, 1, 1]) ?g)) = Some (outs, g')" and
    sm: "sample_many (\<lambda>x idx. x) [1] 2 (1/2) 1 3 [1, 1, 1] ?g = Some (Processed t, g')" and
    st: "shape t = nat 3 # [1, 1, 1]" and
    rows: "\<forall>k<length batches. \<forall>r<hd (shape (batches ! k)). \<forall>idx.
        elem t ((k * nat (min 2 3) + r) # idx) = elem (outs ! k) (r # idx)"
    by blast
  from db have len: "length batches = 2" and r1: "hd (shape (batches ! 1)) = 1"
    by (auto simp add: dataset_batch_def random_uniform_def draws_def upt_rec)
  have e: "elem t [2, 0, 0, 0] = elem (outs ! 1) [0, 0, 0, 0]"
    using rows [rule_format, of 1 0 "[0, 0, 0]"] len r1 by simp
  from db have b: "batches = map (\<lambda>k. Tensor (min 2 (3 - k * 2) # [1, 1, 1])
       (\<lambda>idx. elem (fst (random_uniform [3, 1, 1, 1] ?g))
          (case idx of [] \<Rightarrow> [] | i # r \<Rightarrow> (k * 2 + i) # r))) [0, 1]"
    by (auto simp add: dataset_batch_def random_uniform_def draws_def upt_rec)
  from ab have "elem (outs ! 1) [0, 0, 0, 0] = 7/4"
    unfolding b
    by (auto simp add: random_uniform_def random_normal_def draws_def sample_one_step_def
        tadd_def tbin_def broadcast_shape_def tmap_def level_index_def level_alpha_def
        bidx_def flat_index_def upt_rec split: bind_splits)
  with e sm st show ?thesis by simp
qed

section \<open>Clipping and saving\<close>

lemma upt_10: "[0..<10] = [0, 1, 2, 3, 4, 5, 6, 7, 8, 9]"
  by (simp add: upt_rec)

text \<open>
  Claim C4 fails as stated: \<open>sample_and_save\<close> never calls \<open>clamped\<close>. With a score of
  zero, one noise level, \<open>eps = 1/2\<close>, ten steps, the uniform draw \<open>1/2\<close> and normal
  draws of 1, the single image has the value \<open>21/2\<close>, in the tensor returned and in the
  tensor handed to \<open>save_as_grid\<close> after the tenth step; clipping it would give 1.
\<close>

theorem sample_and_save_not_clipped:
  "\<exists>x g' t. sample_and_save (\<lambda>x idx. Tensor (shape x) (\<lambda>i. 0)) [1] (1/2) 10 1 (Some ''samples/'') [1, 1, 1]
       \<lparr>normal_src = (\<lambda>k. 1), uniform_src = (\<lambda>k. 1/2)\<rparr> =
         Some (x, g', [((''samples/'', 1, 10), t)]) \<and>
     shape x = [1, 1, 1, 1] \<and> elem x [0, 0, 0, 0] = 21/2 \<and> elem t [0, 0, 0, 0] = 21/2 \<and>
     elem (clamped x) [0, 0, 0, 0] = 1"
  apply (simp add: sample_and_save_def random_uniform_def random_normal_def draws_def
      enumerate_eq_zip upt_10 sample_one_step_def tadd_def tbin_def broadcast_shape_def
      tmap_def tf_ones_def save_as_grid_def bidx_idem clamped_def clip_by_value_def Let_def)
  apply (simp add: bidx_def flat_index_def)
  done

text \<open>
  Claim C4, amended. For \<open>n_images = 1\<close>, a score model that keeps the shape of the
  state and images with pixels and 1, 3 or 4 channels, \<open>sample_and_save\<close> returns one
  tensor of shape \<open>(1, H, W, C)\<close>, the state the Langevin steps have left, not clipped;
  every grid file \<open>sigma{i}_t{t}.png\<close> has \<open>t\<close> a multiple of 10 and holds the state
  after \<open>t\<close> steps of level \<open>i - 1\<close>, not clipped either. The clipping of the save
  code is that of \<open>_preprocess_image_to_save\<close>, after the rescaling: a value \<open>v\<close>
  becomes \<open>max (min (v * 255 + 0.5) 255) 0\<close>, which lies in \<open>[0, 255]\<close>.
\<close>

theorem sample_and_save_single_image:
  assumes "\<forall>x idx. shape (model x idx) = shape x"
    and "0 < H" "0 < W" "C = 1 \<or> C = 3 \<or> C = 4"
  shows "\<exists>x g' files.
           sample_and_save model sigmas eps T 1 (Some dir) [H, W, C] g = Some (x, g', files) \<and>
           shape x = [1, H, W, C] \<and>
           annealed model sigmas eps (nat T) (\<lambda>x. 1) (length sigmas)
             (fst (random_uniform [1, H, W, C] g)) (snd (random_uniform [1, H, W, C] g)) =
             Some (x, g') \<and>
           list_all (\<lambda>((d, i1, t1), tn). d = dir \<and> 0 < i1 \<and> t1 mod 10 = 0 \<and>
              map_option fst (state_at model sigmas eps (nat T) 1 (i1 - 1) t1
                (fst (random_uniform [1, H, W, C] g))
                (snd (random_uniform [1, H, W, C] g))) = Some tn) files \<and>
           shape (preprocess_image_to_save x) = [1, H, W, C] \<and>
           (\<forall>idx. elem (preprocess_image_to_save x) idx =
                    max (min (elem x idx * 255 + 0.5) 255) 0 \<and>
                  0 \<le> elem (preprocess_image_to_save x) idx \<and>
                  elem (preprocess_image_to_save x) idx \<le> 255)"
proof -
  have "(0 :: int) \<le> 1" by simp
  from sample_and_save_files [OF assms this, of sigmas eps T dir g]
  obtain x g' files where
    run: "sample_and_save model sigmas eps T 1 (Some dir) [H, W, C] g = Some (x, g', files)" and
    chain: "annealed model sigmas eps (nat T) (\<lambda>x. 1) (length sigmas)
       (fst (random_uniform [1, H, W, C] g)) (snd (random_uniform [1, H, W, C] g)) = Some (x, g')" and
    sh: "shape x = [1, H, W, C]" and
    saved: "list_all (\<lambda>((d, i1, t1), tn). d = dir \<and> 0 < i1 \<and> t1 mod 10 = 0 \<and>
       map_option fst (state_at model sigmas eps (nat T) 1 (i1 - 1) t1
         (fst (random_uniform [1, H, W, C] g))
         (snd (random_uniform [1, H, W, C] g))) = Some tn) files"
    by auto
  have shp: "shape (preprocess_image_to_save x) = [1, H, W, C]"
    using sh by (simp add: preprocess_image_to_save_def clip_by_value_def tmap_def)
  have rng: "\<forall>idx. elem (preprocess_image_to_save x) idx =
        max (min (elem x idx * 255 + 0.5) 255) 0 \<and>
      0 \<le> elem (preprocess_image_to_save x) idx \<and>
      elem (preprocess_image_to_save x) idx \<le> 255"
    by (simp add: preprocess_image_to_save_def clip_by_value_def tmap_def)
  show ?thesis
    by (rule exI [of _ x], rule exI [of _ g'], rule exI [of _ files])
       (intro conjI run sh chain saved shp rng)
qed

theorem sample_and_save_single_image_witness:
  "\<exists>x g' files.
     sample_and_save (\<lambda>x idx. x) [2, 1] (1/2) 1 1 (Some ''samples/'') [1, 1, 1]
       \<lparr>normal_src = (\<lambda>k. 1), uniform_src = (\<lambda>k. 1/2)\<rparr> = Some (x, g', files) \<and>
     shape x = [1, 1, 1, 1] \<and>
     0 \<le> elem (preprocess_image_to_save x) [0, 0, 0, 0] \<and>
     elem (preprocess_image_to_save x) [0, 0, 0, 0] \<le> 255"
proof -
  have h: "\<forall>x idx. shape ((\<lambda>(x :: real tensor) (idx :: int tensor). x) x idx) = shape x"
    "0 < (1 :: nat)" "0 < (1 :: nat)" "(1 :: nat) = 1 \<or> (1 :: nat) = 3 \<or> (1 :: nat) = 4"
    by simp_all
  from sample_and_save_single_image [OF h, where sigmas = "[2, 1]" and eps = "1/2" and T = 1
      and dir = "''samples/''" and g = "\<lparr>normal_src = (\<lambda>k. 1), uniform_src = (\<lambda>k. 1/2)\<rparr>"]
  show ?thesis by blast
qed

section \<open>The noise schedule\<close>

lemma is_float32_one: "is_float32 1"
  unfolding is_float32_def
  by (rule exI [of _ 1], rule exI [of _ 0]) simp

lemma is_float32_succ_one: "is_float32 (1 + 1 / 2 ^ 23)"
  unfolding is_float32_def
  by (rule exI [of _ "2 ^ 23 + 1"], rule exI [of _ 23]) (simp add: field_simps)

lemma no_int_between:
  fixes j n :: int
  assumes "real_of_int n < real_of_int j" "real_of_int j < real_of_int n + 1"
  shows False
proof -
  from assms(1) have "n < j" by simp
  moreover from assms(2) have "real_of_int j < real_of_int (n + 1)" by simp
  then have "j < n + 1" by (simp only: of_int_less_iff)
  ultimately show False by simp
qed

lemma no_float32_above_one:
  assumes f: "is_float32 x" and lo: "1 < x" and hi: "x < 1 + 1 / 2 ^ 23"
  shows False
proof -
  from f obtain m :: int and k :: nat where m: "\<bar>m\<bar> < 2 ^ 24" and
    c: "k \<le> 104 \<and> x = real_of_int m * 2 ^ k \<or> k \<le> 149 \<and> x = real_of_int m / 2 ^ k"
    unfolding is_float32_def by blast
  have small: "(1::real) / 2 ^ 23 \<le> 1" by simp
  from c show False
  proof
    assume "k \<le> 104 \<and> x = real_of_int m * 2 ^ k"
    then have x: "x = real_of_int (m * 2 ^ k)" by simp
    have "real_of_int 1 < real_of_int (m * 2 ^ k)" using lo x by simp
    moreover have "real_of_int (m * 2 ^ k) < real_of_int 1 + 1"
      using hi small x by simp
    ultimately show False by (rule no_int_between)
  next
    assume a: "k \<le> 149 \<and> x = real_of_int m / 2 ^ k"
    show False
    proof (cases "k \<le> 23")
      case True
      have "x * 2 ^ 23 = real_of_int m * (2 ^ 23 / 2 ^ k)" using a by simp
      also have "(2::real) ^ 23 / 2 ^ k = 2 ^ (23 - k)"
        using True by (simp add: power_diff)
      finally have x: "x * 2 ^ 23 = real_of_int (m * 2 ^ (23 - k))" by simp
      have "real_of_int (2 ^ 23) < x * 2 ^ 23" using lo by simp
      then have 1: "real_of_int (2 ^ 23) < real_of_int (m * 2 ^ (23 - k))"
        by (simp only: x)
      have "x * 2 ^ 23 < (1 + 1 / 2 ^ 23) * 2 ^ 23"
        using hi by (simp only: mult_less_cancel_right_pos zero_less_power zero_less_numeral)
      also have "\<dots> = real_of_int (2 ^ 23) + 1" by simp
      finally have 2: "real_of_int (m * 2 ^ (23 - k)) < real_of_int (2 ^ 23) + 1"
        by (simp only: x)
      from 1 2 show False by (rule no_int_between)
    next
      case False
      then have "24 \<le> k" by simp
      then have p: "(2::real) ^ 24 \<le> 2 ^ k" by (intro power_increasing) simp_all
      have "m < 2 ^ 24" using m by simp
      then have "real_of_int m < real_of_int (2 ^ 24)" by (simp only: of_int_less_iff)
      then have "real_of_int m < 2 ^ 24" by simp
      then have "real_of_int m < 2 ^ k" using p by (rule less_le_trans)
      then have "x < 1" using a by simp
      with lo show False by simp
    qed
  qed
qed

lemma log_step_decreasing:
  assumes "b < a" "2 \<le> num" "i < j"
  shows "a + ((b - a) / real_of_int (num - 1)) * real j < a + ((b - a) / real_of_int (num - 1)) * real i"
proof -
  have neg: "(b - a) / real_of_int (num - 1) < 0"
    using assms by (simp add: divide_neg_pos)
  have lt: "real i < real j" using assms by simp
  have "((b - a) / real_of_int (num - 1)) * real j < ((b - a) / real_of_int (num - 1)) * real i"
    using lt neg by (rule mult_strict_left_mono_neg)
  then show ?thesis by simp
qed

lemma sigma_levels_many:
  "2 \<le> num_L \<Longrightarrow> sigma_levels ops sigma_high sigma_low num_L =
     Some (map (\<lambda>i. tf_exp ops (tf_linspace_point ops (tf_log ops sigma_high)
                  (tf_log ops sigma_low) num_L i)) [0..<nat num_L])"
  by (simp add: sigma_levels_def tf_linspace_def comp_def)

lemma sigma_levels_one:
  "sigma_levels ops sigma_high sigma_low 1 = Some [tf_exp ops (tf_log ops sigma_high)]"
  by (simp add: sigma_levels_def tf_linspace_def)

lemma sigma_levels_exact:
  assumes "0 < sigma_low" "sigma_low < sigma_high" "1 \<le> num_L"
  shows "\<exists>sigmas. sigma_levels exact_ops sigma_high sigma_low num_L = Some sigmas \<and>
           length sigmas = nat num_L \<and>
           (2 \<le> num_L \<longrightarrow> (\<forall>i < nat num_L. sigmas ! i =
              exp (ln sigma_high +
                   (real i / real_of_int (num_L - 1)) * (ln sigma_low - ln sigma_high)))) \<and>
           sorted_wrt (>) sigmas \<and>
           hd sigmas = sigma_high \<and>
           (2 \<le> num_L \<longrightarrow> last sigmas = sigma_low) \<and>
           (num_L = 1 \<longrightarrow> sigmas = [sigma_high])"
proof (cases "num_L = 1")
  case True
  then show ?thesis
    using assms by (simp add: sigma_levels_one exact_ops_def)
next
  case False
  with assms have L: "2 \<le> num_L" by simp
  define a where "a = ln sigma_high"
  define b where "b = ln sigma_low"
  define f where "f = (\<lambda>i. exp (a + ((b - a) / real_of_int (num_L - 1)) * real i))"
  have ba: "b < a"
    using assms by (simp add: a_def b_def)
  have run: "sigma_levels exact_ops sigma_high sigma_low num_L = Some (map f [0..<nat num_L])"
    using L by (simp add: sigma_levels_many exact_ops_def f_def a_def b_def)
  have len: "length (map f [0..<nat num_L]) = nat num_L"
    by simp
  have formula: "map f [0..<nat num_L] ! i =
      exp (ln sigma_high + (real i / real_of_int (num_L - 1)) * (ln sigma_low - ln sigma_high))"
    if "i < nat num_L" for i
    using that by (simp add: f_def a_def b_def)
  have dec: "sorted_wrt (>) (map f [0..<nat num_L])"
    unfolding sorted_wrt_iff_nth_less
    using log_step_decreasing [OF ba L] by (simp add: f_def)
  have first: "hd (map f [0..<nat num_L]) = sigma_high"
    using L assms by (simp add: hd_map f_def a_def upt_conv_Cons)
  have "last (map f [0..<nat num_L]) = f (nat num_L - 1)"
    using L by (simp add: last_map)
  also have "\<dots> = exp b"
    using L by (simp add: f_def)
  also have "\<dots> = sigma_low"
    using assms by (simp add: b_def)
  finally have lst: "last (map f [0..<nat num_L]) = sigma_low" .
  show ?thesis
    using run len formula dec first lst False by simp
qed

text \<open>
  Claim C3 does not hold of float32 values. There is no float32 value between \<open>1\<close> and
  its successor \<open>1 + 2\<^sup>-\<^sup>2\<^sup>3\<close>: for \<open>sigma_high = 1 + 2\<^sup>-\<^sup>2\<^sup>3\<close>, \<open>sigma_low = 1\<close> and
  \<open>num_L = 5\<close> the schedule has five float32 elements, and whatever the library returns for
  the logarithms, the points and the exponentials, they are not strictly decreasing from
  \<open>sigma_high\<close> to \<open>sigma_low\<close>.
\<close>

theorem sigma_levels_float32_not_strict:
  "(\<exists>ops sigmas. sigma_levels ops (1 + 1 / 2 ^ 23) 1 5 = Some sigmas \<and>
       list_all is_float32 sigmas \<and> length sigmas = 5) \<and>
   \<not> (\<exists>ops sigmas. sigma_levels ops (1 + 1 / 2 ^ 23) 1 5 = Some sigmas \<and>
         list_all is_float32 sigmas \<and> length sigmas = 5 \<and> sorted_wrt (>) sigmas \<and>
         hd sigmas = 1 + 1 / 2 ^ 23 \<and> last sigmas = 1)"
proof (rule conjI)
  let ?ops = "\<lparr>tf_log = (\<lambda>x. x), tf_exp = (\<lambda>y::real. if y \<le> 1 then 1 + 1 / 2 ^ 23 else 1),
    tf_linspace_point = (\<lambda>start stop num i. real i)\<rparr>"
  have "sigma_levels ?ops (1 + 1 / 2 ^ 23) 1 5 =
      Some [1 + 1 / 2 ^ 23, 1 + 1 / 2 ^ 23, 1, 1, 1]"
    by (simp add: sigma_levels_many upt_rec)
  moreover have "list_all is_float32 [1 + 1 / 2 ^ 23, 1 + 1 / 2 ^ 23, 1, 1, 1]"
    using is_float32_one is_float32_succ_one by simp
  ultimately show "\<exists>ops sigmas. sigma_levels ops (1 + 1 / 2 ^ 23) 1 5 = Some sigmas \<and>
       list_all is_float32 sigmas \<and> length sigmas = 5"
    by (intro exI [of _ ?ops] exI [of _ "[1 + 1 / 2 ^ 23, 1 + 1 / 2 ^ 23, 1, 1, 1]"]) simp
next
  show "\<not> (\<exists>ops sigmas. sigma_levels ops (1 + 1 / 2 ^ 23) 1 5 = Some sigmas \<and>
         list_all is_float32 sigmas \<and> length sigmas = 5 \<and> sorted_wrt (>) sigmas \<and>
         hd sigmas = 1 + 1 / 2 ^ 23 \<and> last sigmas = 1)"
  proof
    assume "\<exists>ops sigmas. sigma_levels ops (1 + 1 / 2 ^ 23) 1 5 = Some sigmas \<and>
         list_all is_float32 sigmas \<and> length sigmas = 5 \<and> sorted_wrt (>) sigmas \<and>
         hd sigmas = 1 + 1 / 2 ^ 23 \<and> last sigmas = 1"
    then obtain sigmas :: "real list" where fl: "list_all is_float32 sigmas" and
      len: "length sigmas = 5" and dec: "sorted_wrt (>) sigmas" and
      first: "hd sigmas = 1 + 1 / 2 ^ 23" and lst: "last sigmas = 1"
      by blast
    have ne: "sigmas \<noteq> []" using len by auto
    have h: "sigmas ! 0 = 1 + 1 / 2 ^ 23"
      using first ne by (simp add: hd_conv_nth)
    have l: "sigmas ! 4 = 1"
      using lst ne len by (simp add: last_conv_nth)
    have "sigmas ! 1 < sigmas ! 0" "sigmas ! 4 < sigmas ! 1"
      using dec len by (simp_all add: sorted_wrt_iff_nth_less)
    then have "1 < sigmas ! 1" "sigmas ! 1 < 1 + 1 / 2 ^ 23"
      by (simp_all only: h l)
    moreover have "is_float32 (sigmas ! 1)"
      using fl len by (simp add: list_all_length)
    ultimately show False
      using no_float32_above_one by blast
  qed
qed

text \<open>
  Claim C3, amended. For \<open>sigma_high > sigma_low > 0\<close> and \<open>num_L \<ge> 1\<close> the schedule has
  \<open>num_L\<close> elements: for two or more levels element \<open>i\<close> is the exponential of point \<open>i\<close>
  of \<open>tf.linspace\<close> between the two logarithms, for one level it is the single value
  \<open>exp (log sigma_high)\<close>, each as the library computes it. Where the library computes
  without rounding, the elements are
  \<open>exp (ln sigma_high + (i / (num_L - 1)) * (ln sigma_low - ln sigma_high))\<close>, the schedule
  is strictly decreasing, starts with \<open>sigma_high\<close> and ends with \<open>sigma_low\<close>; for one
  level it is the single value \<open>sigma_high\<close>.
\<close>

theorem sigma_levels_schedule:
  assumes "0 < sigma_low" "sigma_low < sigma_high" "1 \<le> num_L"
  shows "(\<exists>sigmas. sigma_levels ops sigma_high sigma_low num_L = Some sigmas \<and>
            length sigmas = nat num_L \<and>
            (2 \<le> num_L \<longrightarrow> (\<forall>i < nat num_L. sigmas ! i =
               tf_exp ops (tf_linspace_point ops (tf_log ops sigma_high)
                 (tf_log ops sigma_low) num_L i))) \<and>
            (num_L = 1 \<longrightarrow> sigmas = [tf_exp ops (tf_log ops sigma_high)])) \<and>
         (\<exists>sigmas. sigma_levels exact_ops sigma_high sigma_low num_L = Some sigmas \<and>
            length sigmas = nat num_L \<and>
            (2 \<le> num_L \<longrightarrow> (\<forall>i < nat num_L. sigmas ! i =
               exp (ln sigma_high +
                    (real i / real_of_int (num_L - 1)) * (ln sigma_low - ln sigma_high)))) \<and>
            sorted_wrt (>) sigmas \<and>
            hd sigmas = sigma_high \<and>
            (2 \<le> num_L \<longrightarrow> last sigmas = sigma_low) \<and>
            (num_L = 1 \<longrightarrow> sigmas = [sigma_high]))"
proof (rule conjI)
  show "\<exists>sigmas. sigma_levels ops sigma_high sigma_low num_L = Some sigmas \<and>
            length sigmas = nat num_L \<and>
            (2 \<le> num_L \<longrightarrow> (\<forall>i < nat num_L. sigmas ! i =
               tf_exp ops (tf_linspace_point ops (tf_log ops sigma_high)
                 (tf_log ops sigma_low) num_L i))) \<and>
            (num_L = 1 \<longrightarrow> sigmas = [tf_exp ops (tf_log ops sigma_high)])"
  proof (cases "num_L = 1")
    case True
    then show ?thesis by (simp add: sigma_levels_one)
  next
    case False
    with assms have "2 \<le> num_L" by simp
    then show ?thesis by (simp add: sigma_levels_many)
  qed
next
  show "\<exists>sigmas. sigma_levels exact_ops sigma_high sigma_low num_L = Some sigmas \<and>
            length sigmas = nat num_L \<and>
            (2 \<le> num_L \<longrightarrow> (\<forall>i < nat num_L. sigmas ! i =
               exp (ln sigma_high +
                    (real i / real_of_int (num_L - 1)) * (ln sigma_low - ln sigma_high)))) \<and>
            sorted_wrt (>) sigmas \<and>
            hd sigmas = sigma_high \<and>
            (2 \<le> num_L \<longrightarrow> last sigmas = sigma_low) \<and>
            (num_L = 1 \<longrightarrow> sigmas = [sigma_high])"
    by (rule sigma_levels_exact [OF assms])
qed

theorem sigma_levels_schedule_witness:
  "\<exists>sigmas. sigma_levels exact_ops 4 1 3 = Some sigmas \<and> length sigmas = 3 \<and>
     sigmas ! 1 = exp (ln 4 + (1 / 2) * (ln 1 - ln 4)) \<and>
     sorted_wrt (>) sigmas \<and> hd sigmas = 4 \<and> last sigmas = 1"
proof -
  have "0 < (1::real)" "(1::real) < 4" "(1::int) \<le> 3"
    by simp_all
  from sigma_levels_schedule [OF this, of exact_ops]
  obtain sigmas where s: "sigma_levels exact_ops 4 1 3 = Some sigmas" "length sigmas = nat 3"
    "2 \<le> (3::int) \<longrightarrow> (\<forall>i < nat 3. sigmas ! i =
        exp (ln 4 + (real i / real_of_int (3 - 1)) * (ln 1 - ln 4)))"
    "sorted_wrt (>) sigmas" "hd sigmas = 4" "2 \<le> (3::int) \<longrightarrow> last sigmas = 1"
    by blast
  from s(3) have "sigmas ! 1 = exp (ln 4 + (real 1 / real_of_int (3 - 1)) * (ln 1 - ln 4))"
    by simp
  with s show ?thesis by simp
qed

section \<open>The losses\<close>

lemma residual_tensor:
  assumes "shape score = [B, H, W, C]" "shape x_perturbed = [B, H, W, C]"
    "shape x = [B, H, W, C]" "broadcast_shape (shape sigmas) [B, H, W, C] = Some [B, H, W, C]"
  shows "\<exists>scaled diff target residual.
           tmul sigmas score = Some scaled \<and> tsub x_perturbed x = Some diff \<and>
           tdiv diff sigmas = Some target \<and> tadd scaled target = Some residual \<and>
           shape residual = [B, H, W, C] \<and>
           (\<forall>b<B. \<forall>h<H. \<forall>w<W. \<forall>c<C.
              elem residual [b, h, w, c] = residual_at score x_perturbed x sigmas b h w c)"
proof -
  note bs1 = assms(4)
  have bs2: "broadcast_shape [B, H, W, C] (shape sigmas) = Some [B, H, W, C]"
    using bs1 by (simp only: broadcast_shape_commute)
  define scaled where "scaled = Tensor [B, H, W, C]
    (\<lambda>idx. elem sigmas (bidx (shape sigmas) idx) * elem score (bidx [B, H, W, C] idx))"
  define diff where "diff = Tensor [B, H, W, C]
    (\<lambda>idx. elem x_perturbed (bidx [B, H, W, C] idx) - elem x (bidx [B, H, W, C] idx))"
  define target where "target = Tensor [B, H, W, C]
    (\<lambda>idx. elem diff (bidx [B, H, W, C] idx) / elem sigmas (bidx (shape sigmas) idx))"
  define residual where "residual = Tensor [B, H, W, C]
    (\<lambda>idx. elem scaled (bidx [B, H, W, C] idx) + elem target (bidx [B, H, W, C] idx))"
  have 1: "tmul sigmas score = Some scaled"
    using bs1 by (simp add: tmul_def tbin_def assms scaled_def)
  have 2: "tsub x_perturbed x = Some diff"
    by (simp add: tsub_def tbin_def assms broadcast_shape_same diff_def)
  have 3: "tdiv diff sigmas = Some target"
    using bs2 by (simp add: tdiv_def tbin_def assms target_def diff_def)
  have 4: "tadd scaled target = Some residual"
    by (simp add: tadd_def tbin_def broadcast_shape_same residual_def scaled_def target_def)
  have full: "bidx [B, H, W, C] [b, h, w, c] = [b, h, w, c]"
    if "b < B" "h < H" "w < W" "c < C" for b h w c
    using that by (simp add: bidx_valid valid_index_def)
  have el: "elem residual [b, h, w, c] = residual_at score x_perturbed x sigmas b h w c"
    if "b < B" "h < H" "w < W" "c < C" for b h w c
    using that
    by (simp add: residual_def scaled_def target_def diff_def full residual_at_def)
  show ?thesis
    using 1 2 3 4 el by (simp add: residual_def)
qed

lemma loss_per_batch_nested_norms:
  assumes "shape score = [B, H, W, C]" "shape x_perturbed = [B, H, W, C]"
    "shape x = [B, H, W, C]" "broadcast_shape (shape sigmas) [B, H, W, C] = Some [B, H, W, C]"
  shows "loss_per_batch num_L score x_perturbed x sigmas =
           Some (0.5 * ((\<Sum>b<B. (sqrt (\<Sum>c<C. (sqrt (\<Sum>h<H. \<Sum>w<W.
              (residual_at score x_perturbed x sigmas b h w c)\<^sup>2))\<^sup>2))\<^sup>2) / real B)
             / real_of_int num_L)"
proof -
  from residual_tensor [OF assms] obtain scaled diff target residual where
    ops: "tmul sigmas score = Some scaled" "tsub x_perturbed x = Some diff"
      "tdiv diff sigmas = Some target" "tadd scaled target = Some residual" and
    sh: "shape residual = [B, H, W, C]" and
    el: "\<forall>b<B. \<forall>h<H. \<forall>w<W. \<forall>c<C.
           elem residual [b, h, w, c] = residual_at score x_perturbed x sigmas b h w c"
    by blast
  define l1 where "l1 = Tensor [B, C]
    (\<lambda>idx. sqrt (\<Sum>i<H. \<Sum>j<W.
       (elem residual (case idx of [] \<Rightarrow> [] | k # r \<Rightarrow> k # i # j # r))\<^sup>2))"
  define l2 where "l2 = Tensor [B] (\<lambda>idx. sqrt (\<Sum>c<C. (elem l1 (idx @ [c]))\<^sup>2))"
  have n1: "norm_axes12 residual = Some l1"
    by (simp add: norm_axes12_def sh l1_def)
  have n2: "norm_last l1 = Some l2"
    by (simp add: norm_last_def l1_def l2_def)
  have run: "loss_per_batch num_L score x_perturbed x sigmas =
      Some (0.5 * reduce_mean (tf_square l2) / real_of_int num_L)"
    by (simp add: loss_per_batch_def ops n1 n2)
  have spatial: "elem l1 [b, c] =
      sqrt (\<Sum>h<H. \<Sum>w<W. (residual_at score x_perturbed x sigmas b h w c)\<^sup>2)"
    if "b < B" "c < C" for b c
    using that el by (simp add: l1_def)
  have channel: "elem l2 [b] =
      sqrt (\<Sum>c<C. (sqrt (\<Sum>h<H. \<Sum>w<W. (residual_at score x_perturbed x sigmas b h w c)\<^sup>2))\<^sup>2)"
    if "b < B" for b
    using that spatial by (simp add: l2_def)
  have "reduce_mean (tf_square l2) = (\<Sum>b<B. (elem l2 [b])\<^sup>2) / real B"
    by (simp add: reduce_mean_def tf_square_def tmap_def l2_def power2_eq_square)
  also have "(\<Sum>b<B. (elem l2 [b])\<^sup>2) =
      (\<Sum>b<B. (sqrt (\<Sum>c<C. (sqrt (\<Sum>h<H. \<Sum>w<W.
          (residual_at score x_perturbed x sigmas b h w c)\<^sup>2))\<^sup>2))\<^sup>2)"
    using channel by simp
  finally show ?thesis
    by (simp add: run)
qed

lemma loss_per_batch_sum_of_squares:
  assumes "shape score = [B, H, W, C]" "shape x_perturbed = [B, H, W, C]"
    "shape x = [B, H, W, C]" "broadcast_shape (shape sigmas) [B, H, W, C] = Some [B, H, W, C]"
  shows "loss_per_batch num_L score x_perturbed x sigmas =
           Some (0.5 * ((\<Sum>b<B. \<Sum>c<C. \<Sum>h<H. \<Sum>w<W.
              (residual_at score x_perturbed x sigmas b h w c)\<^sup>2) / real B)
             / real_of_int num_L)"
proof -
  let ?r = "residual_at score x_perturbed x sigmas"
  have inner: "(sqrt (\<Sum>h<H. \<Sum>w<W. (?r b h w c)\<^sup>2))\<^sup>2 = (\<Sum>h<H. \<Sum>w<W. (?r b h w c)\<^sup>2)"
    for b c
    by (simp add: sum_nonneg)
  have outer: "(sqrt (\<Sum>c<C. \<Sum>h<H. \<Sum>w<W. (?r b h w c)\<^sup>2))\<^sup>2 =
      (\<Sum>c<C. \<Sum>h<H. \<Sum>w<W. (?r b h w c)\<^sup>2)" for b
    by (simp add: sum_nonneg)
  show ?thesis
    by (simp only: loss_per_batch_nested_norms [OF assms] inner outer)
qed

lemma residual_zero_iff:
  assumes "0 < (s::real)"
  shows "s * a + (p - q) / s = 0 \<longleftrightarrow> a = (q - p) / s\<^sup>2"
proof -
  have "s * a + (p - q) / s = (s\<^sup>2 * a + (p - q)) / s"
    using assms by (simp add: field_simps power2_eq_square)
  then have "s * a + (p - q) / s = 0 \<longleftrightarrow> s\<^sup>2 * a + (p - q) = 0"
    using assms by simp
  also have "\<dots> \<longleftrightarrow> a = (q - p) / s\<^sup>2"
    using assms by (auto simp add: field_simps)
  finally show ?thesis .
qed

text \<open>
  Claim C5. For a score, a perturbed sample and a sample of shape \<open>(B, H, W, C)\<close> and
  noise levels that broadcast to this shape, \<open>loss_per_batch\<close> returns the scalar of the
  specification: the norm of the residual over the spatial dimensions, its norm over the
  channels, squared, averaged over the batch, times 0.5, divided by \<open>num_L\<close>.
\<close>

theorem loss_per_batch_formula:
  assumes "shape score = [B, H, W, C]" "shape x_perturbed = [B, H, W, C]"
    "shape x = [B, H, W, C]" "broadcast_shape (shape sigmas) [B, H, W, C] = Some [B, H, W, C]"
  shows "loss_per_batch num_L score x_perturbed x sigmas =
           Some (loss_per_batch_spec num_L B H W C (residual_at score x_perturbed x sigmas))"
  unfolding loss_per_batch_spec_def by (rule loss_per_batch_nested_norms [OF assms])

theorem loss_per_batch_formula_witness:
  "loss_per_batch 1 (Tensor [1, 1, 2, 1] (\<lambda>idx. 1)) (Tensor [1, 1, 2, 1] (\<lambda>idx. 2))
     (Tensor [1, 1, 2, 1] (\<lambda>idx. 1)) (Tensor [1, 1, 1, 1] (\<lambda>idx. 1)) = Some 4"
proof -
  have "loss_per_batch 1 (Tensor [1, 1, 2, 1] (\<lambda>idx. 1)) (Tensor [1, 1, 2, 1] (\<lambda>idx. 2))
     (Tensor [1, 1, 2, 1] (\<lambda>idx. 1)) (Tensor [1, 1, 1, 1] (\<lambda>idx. 1)) =
     Some (loss_per_batch_spec 1 1 1 2 1
       (residual_at (Tensor [1, 1, 2, 1] (\<lambda>idx. 1)) (Tensor [1, 1, 2, 1] (\<lambda>idx. 2))
          (Tensor [1, 1, 2, 1] (\<lambda>idx. 1)) (Tensor [1, 1, 1, 1] (\<lambda>idx. 1))))"
    by (rule loss_per_batch_formula) (simp_all add: broadcast_shape_def)
  then show ?thesis
    by (simp add: loss_per_batch_spec_def residual_at_def bidx_def eval_nat_numeral)
qed

lemma sum_list_upt: "sum_list (map f [0..<n]) = (\<Sum>i<n. f i)"
  by (simp add: interv_sum_list_conv_sum_set_nat atLeast0LessThan)

lemma sum_list_concat_map: "sum_list (concat xss) = sum_list (map sum_list (xss :: real list list))"
  by (induction xss) simp_all

lemma sum_list_elements: "sum_list (elements s f) = tsum s f"
proof (induction s arbitrary: f)
  case Nil
  show ?case by simp
next
  case (Cons n s)
  show ?case
    by (simp add: sum_list_concat_map comp_def Cons.IH sum_list_upt)
qed

lemma fl_norm_exact: "fl_norm exact_arith vs = sqrt (sum_list (map (\<lambda>v. v\<^sup>2) vs))"
  by (simp add: fl_norm_def exact_arith_def power2_eq_square)

lemma norm_axes12_fl_exact: "norm_axes12_fl exact_arith t = norm_axes12 t"
  by (simp add: norm_axes12_fl_def norm_axes12_def fl_norm_exact map_concat comp_def
      sum_list_concat_map sum_list_upt split: list.splits)

lemma norm_last_fl_exact: "norm_last_fl exact_arith t = norm_last t"
  by (simp add: norm_last_fl_def norm_last_def fl_norm_exact comp_def sum_list_upt)

lemma reduce_mean_fl_exact:
  "reduce_mean_fl exact_arith t =
     (if prod_list (shape t) = 0 then NaN else Num (reduce_mean t))"
  by (simp add: reduce_mean_fl_def reduce_mean_def exact_arith_def sum_list_elements)

lemma tbin_exact:
  "tbin (fl_mul exact_arith) = tmul" "tbin (fl_sub exact_arith) = tsub"
  "tbin (fl_div exact_arith) = tdiv" "tbin (fl_add exact_arith) = tadd"
  by (simp_all add: fun_eq_iff exact_arith_def tmul_def tsub_def tdiv_def tadd_def)

lemma square_exact: "tmap (\<lambda>v. fl_mul exact_arith v v) = tf_square"
  by (simp add: exact_arith_def tf_square_def fun_eq_iff)

lemma tbin_some:
  "broadcast_shape (shape a) (shape b) = Some s \<Longrightarrow> \<exists>t. tbin f a b = Some t \<and> shape t = s"
  by (simp add: tbin_def)

lemma loss_per_batch_fl_pipeline:
  assumes "shape score = [B, H, W, C]" "shape x_perturbed = [B, H, W, C]"
    "shape x = [B, H, W, C]" "broadcast_shape (shape sigmas) [B, H, W, C] = Some [B, H, W, C]"
  shows "\<exists>l. shape l = [B] \<and>
           loss_per_batch_fl ar num_L score x_perturbed x sigmas =
             Some (half_over ar (reduce_mean_fl ar l) num_L)"
proof -
  have bs1: "broadcast_shape (shape sigmas) (shape score) = Some [B, H, W, C]"
    using assms by simp
  from tbin_some [OF bs1] obtain scaled where
    1: "tbin (fl_mul ar) sigmas score = Some scaled" "shape scaled = [B, H, W, C]"
    by blast
  have "broadcast_shape (shape x_perturbed) (shape x) = Some [B, H, W, C]"
    using assms by (simp add: broadcast_shape_same)
  from tbin_some [OF this] obtain diff where
    2: "tbin (fl_sub ar) x_perturbed x = Some diff" "shape diff = [B, H, W, C]"
    by blast
  have "broadcast_shape (shape diff) (shape sigmas) = Some [B, H, W, C]"
    using assms 2 by (simp add: broadcast_shape_commute)
  from tbin_some [OF this] obtain target where
    3: "tbin (fl_div ar) diff sigmas = Some target" "shape target = [B, H, W, C]"
    by blast
  have "broadcast_shape (shape scaled) (shape target) = Some [B, H, W, C]"
    using 1 3 by (simp add: broadcast_shape_same)
  from tbin_some [OF this] obtain residual where
    4: "tbin (fl_add ar) scaled target = Some residual" "shape residual = [B, H, W, C]"
    by blast
  obtain l1 where 5: "norm_axes12_fl ar residual = Some l1" "shape l1 = [B, C]"
    using 4 by (simp add: norm_axes12_fl_def)
  obtain l2 where 6: "norm_last_fl ar l1 = Some l2" "shape l2 = [B]"
    using 5 by (simp add: norm_last_fl_def)
  have "shape (tmap (\<lambda>v. fl_mul ar v v) l2) = [B]"
    using 6 by (simp add: tmap_def)
  moreover have "loss_per_batch_fl ar num_L score x_perturbed x sigmas =
      Some (half_over ar (reduce_mean_fl ar (tmap (\<lambda>v. fl_mul ar v v) l2)) num_L)"
    by (simp add: loss_per_batch_fl_def 1 2 3 4 5 6)
  ultimately show ?thesis by blast
qed

lemma loss_per_batch_fl_empty:
  assumes "shape score = [0, H, W, C]" "shape x_perturbed = [0, H, W, C]"
    "shape x = [0, H, W, C]" "broadcast_shape (shape sigmas) [0, H, W, C] = Some [0, H, W, C]"
  shows "loss_per_batch_fl ar num_L score x_perturbed x sigmas = Some NaN"
proof -
  from loss_per_batch_fl_pipeline [OF assms] obtain l where
    "shape l = [0]" "loss_per_batch_fl ar num_L score x_perturbed x sigmas =
             Some (half_over ar (reduce_mean_fl ar l) num_L)"
    by blast
  then show ?thesis
    by (simp add: reduce_mean_fl_def half_over_def)
qed

lemma loss_per_batch_fl_exact:
  assumes "shape score = [B, H, W, C]" "shape x_perturbed = [B, H, W, C]"
    "shape x = [B, H, W, C]" "broadcast_shape (shape sigmas) [B, H, W, C] = Some [B, H, W, C]"
    and "0 < B" "num_L \<noteq> 0"
  shows "loss_per_batch_fl exact_arith num_L score x_perturbed x sigmas =
           map_option Num (loss_per_batch num_L score x_perturbed x sigmas)"
proof -
  from residual_tensor [OF assms(1-4)] obtain scaled diff target residual where
    ops: "tmul sigmas score = Some scaled" "tsub x_perturbed x = Some diff"
      "tdiv diff sigmas = Some target" "tadd scaled target = Some residual" and
    sh: "shape residual = [B, H, W, C]"
    by blast
  obtain l1 where n1: "norm_axes12 residual = Some l1" "shape l1 = [B, C]"
    using sh by (simp add: norm_axes12_def)
  obtain l2 where n2: "norm_last l1 = Some l2" "shape l2 = [B]"
    using n1 by (simp add: norm_last_def)
  have run: "loss_per_batch num_L score x_perturbed x sigmas =
      Some (0.5 * reduce_mean (tf_square l2) / real_of_int num_L)"
    by (simp add: loss_per_batch_def ops n1 n2)
  have sq: "shape (tf_square l2) = [B]"
    using n2 by (simp add: tf_square_def tmap_def)
  have "loss_per_batch_fl exact_arith num_L score x_perturbed x sigmas =
      Some (half_over exact_arith (reduce_mean_fl exact_arith (tf_square l2)) num_L)"
    by (simp add: loss_per_batch_fl_def tbin_exact norm_axes12_fl_exact norm_last_fl_exact
        square_exact ops n1 n2)
  also have "reduce_mean_fl exact_arith (tf_square l2) = Num (reduce_mean (tf_square l2))"
    using assms(5) by (simp add: reduce_mean_fl_exact sq)
  also have "half_over exact_arith (Num (reduce_mean (tf_square l2))) num_L =
      Num (0.5 * reduce_mean (tf_square l2) / real_of_int num_L)"
    using assms(6) by (simp add: half_over_def exact_arith_def)
  finally show ?thesis
    by (simp add: run)
qed

lemma is_float32_zero: "is_float32 0"
  unfolding is_float32_def
  by (rule exI [of _ 0], rule exI [of _ 0]) simp

lemma is_float32_half: "is_float32 (1 / 2)"
  unfolding is_float32_def
  by (rule exI [of _ 1], rule exI [of _ 1]) simp

lemma is_float32_tiny: "is_float32 (1 / 2 ^ 100)"
  unfolding is_float32_def
  by (rule exI [of _ 1], rule exI [of _ 100]) simp

lemma is_float32_underflow:
  assumes "is_float32 x" "\<bar>x\<bar> < 1 / 2 ^ 150"
  shows "x = 0"
proof (rule ccontr)
  assume nz: "x \<noteq> 0"
  from assms(1) obtain m :: int and k :: nat where
    c: "k \<le> 104 \<and> x = real_of_int m * 2 ^ k \<or> k \<le> 149 \<and> x = real_of_int m / 2 ^ k"
    unfolding is_float32_def by blast
  have m0: "m \<noteq> 0" using c nz by auto
  then have "1 \<le> \<bar>m\<bar>" by simp
  then have "real_of_int 1 \<le> real_of_int \<bar>m\<bar>" by (simp only: of_int_le_iff)
  then have m1: "1 \<le> \<bar>real_of_int m\<bar>" by simp
  have lt1: "\<bar>x\<bar> < 1 / 2 ^ 149"
  proof -
    have "(1::real) / 2 ^ 150 \<le> 1 / 2 ^ 149" by simp
    with assms(2) show ?thesis by simp
  qed
  from c show False
  proof
    assume a: "k \<le> 104 \<and> x = real_of_int m * 2 ^ k"
    have "1 * 1 \<le> \<bar>real_of_int m\<bar> * 2 ^ k"
      by (intro mult_mono m1) simp_all
    then have "1 \<le> \<bar>x\<bar>" using a by (simp add: abs_mult)
    moreover have "(1::real) / 2 ^ 149 \<le> 1" by simp
    ultimately show False using lt1 by simp
  next
    assume a: "k \<le> 149 \<and> x = real_of_int m / 2 ^ k"
    then have "(2::real) ^ k \<le> 2 ^ 149" by (intro power_increasing) simp_all
    then have "1 / (2::real) ^ 149 \<le> 1 / 2 ^ k"
      by (intro divide_left_mono) simp_all
    also have "\<dots> \<le> \<bar>real_of_int m\<bar> / 2 ^ k"
      using m1 by (intro divide_right_mono) simp_all
    also have "\<dots> = \<bar>x\<bar>" using a by simp
    finally show False using lt1 by simp
  qed
qed

lemma ieee_arith_exists:
  "ieee_arith \<lparr>fl_add = (+), fl_sub = (-),
     fl_mul = (\<lambda>a b. if \<bar>a * b\<bar> < 1 / 2 ^ 150 then 0 else a * b),
     fl_div = (/), fl_sqrt = sqrt, fl_sum = sum_list\<rparr>"
proof -
  have u: "(if \<bar>a * b\<bar> < 1 / 2 ^ 150 then 0 else a * b) = a * b" if "is_float32 (a * b)"
    for a b :: real
  proof (cases "\<bar>a * b\<bar> < 1 / 2 ^ 150")
    case True
    from is_float32_underflow [OF that True] True show ?thesis
      by (simp only: if_True)
  next
    case False
    then show ?thesis by (simp only: if_False)
  qed
  show ?thesis
    unfolding ieee_arith_def float_arith.select_convs
    by (intro conjI allI impI) (simp_all only: u sum_list.Cons sum_list.Nil add_0_right if_True)
qed

lemma ieee_arith_underflow:
  assumes "ieee_arith ar"
  shows "loss_per_batch_fl ar 1 (Tensor [1, 1, 1, 1] (\<lambda>idx. 1 / 2 ^ 100))
           (Tensor [1, 1, 1, 1] (\<lambda>idx. 1)) (Tensor [1, 1, 1, 1] (\<lambda>idx. 1))
           (Tensor [1, 1, 1, 1] (\<lambda>idx. 1)) = Some (Num 0)"
proof -
  note f = is_float32_zero is_float32_one is_float32_half is_float32_tiny
  have add: "is_float32 a \<Longrightarrow> is_float32 b \<Longrightarrow> is_float32 (a + b) \<Longrightarrow> fl_add ar a b = a + b"
    and sub: "is_float32 a \<Longrightarrow> is_float32 b \<Longrightarrow> is_float32 (a - b) \<Longrightarrow> fl_sub ar a b = a - b"
    and mul: "is_float32 a \<Longrightarrow> is_float32 b \<Longrightarrow> is_float32 (a * b) \<Longrightarrow> fl_mul ar a b = a * b"
    and dvd: "is_float32 a \<Longrightarrow> is_float32 b \<Longrightarrow> b \<noteq> 0 \<Longrightarrow> is_float32 (a / b) \<Longrightarrow>
      fl_div ar a b = a / b"
    and sqr: "is_float32 a \<Longrightarrow> 0 \<le> a \<Longrightarrow> is_float32 (sqrt a) \<Longrightarrow> fl_sqrt ar a = sqrt a"
    and sum1: "is_float32 a \<Longrightarrow> fl_sum ar [a] = a"
    and und: "is_float32 a \<Longrightarrow> is_float32 b \<Longrightarrow> \<bar>a * b\<bar> < 1 / 2 ^ 150 \<Longrightarrow> fl_mul ar a b = 0"
    for a b
    using assms unfolding ieee_arith_def by blast+
  define t :: real where "t = 1 / 2 ^ 100"
  have ft: "is_float32 t"
    unfolding t_def by (rule is_float32_tiny)
  have tt: "\<bar>t * t\<bar> < 1 / 2 ^ 150"
    by (simp add: t_def)
  have f1: "fl_mul ar 1 t = t"
    using mul [of 1 t] f ft by simp
  have f2: "fl_sub ar 1 1 = 0"
    using sub [of 1 1] f by simp
  have f3: "fl_div ar 0 1 = 0"
    using dvd [of 0 1] f by simp
  have f4: "fl_add ar t 0 = t"
    using add [of t 0] f ft by simp
  have f5: "fl_mul ar t t = 0"
    using und [of t t] ft tt by simp
  have f6: "fl_sum ar [0] = 0"
    using sum1 [of 0] f by simp
  have f7: "fl_sqrt ar 0 = 0"
    using sqr [of 0] f by simp
  have f8: "fl_mul ar 0 0 = 0"
    using mul [of 0 0] f by simp
  have f9: "fl_mul ar (1 / 2) 0 = 0"
    using mul [of "1 / 2" 0] f by simp
  show ?thesis
    unfolding t_def [symmetric]
    by (simp add: loss_per_batch_fl_def tbin_def broadcast_shape_def bidx_def
        norm_axes12_fl_def norm_last_fl_def fl_norm_def tmap_def reduce_mean_fl_def
        half_over_def Let_def f1 f2 f3 f4 f5 f6 f7 f8 f9)
qed

text \<open>
  Claim C6 does not hold of float32 values. For the score \<open>2\<^sup>-\<^sup>1\<^sup>0\<^sup>0\<close>, \<open>x = x_perturbed = 1\<close>
  and \<open>sigma = 1\<close> the residual is \<open>2\<^sup>-\<^sup>1\<^sup>0\<^sup>0\<close>, its square underflows, and every IEEE
  arithmetic returns the loss 0, while \<open>(x - x_perturbed) / sigma\<^sup>2 = 0\<close> is not the score.
  For an empty batch the mean is \<open>0 / 0\<close> and the loss is NaN, which is not a non-negative
  value.
\<close>

theorem loss_per_batch_float32_zero:
  "(\<exists>ar. ieee_arith ar) \<and>
   \<not> (\<exists>ar. ieee_arith ar \<and>
          loss_per_batch_fl ar 1 (Tensor [1, 1, 1, 1] (\<lambda>idx. 1 / 2 ^ 100))
            (Tensor [1, 1, 1, 1] (\<lambda>idx. 1)) (Tensor [1, 1, 1, 1] (\<lambda>idx. 1))
            (Tensor [1, 1, 1, 1] (\<lambda>idx. 1)) \<noteq> Some (Num 0)) \<and>
   elem (Tensor [1, 1, 1, 1] (\<lambda>idx. 1 / 2 ^ 100 :: real)) [0, 0, 0, 0] \<noteq>
     (elem (Tensor [1, 1, 1, 1] (\<lambda>idx. 1 :: real)) [0, 0, 0, 0] -
      elem (Tensor [1, 1, 1, 1] (\<lambda>idx. 1 :: real)) [0, 0, 0, 0]) /
     (elem (Tensor [1, 1, 1, 1] (\<lambda>idx. 1 :: real)) (bidx [1, 1, 1, 1] [0, 0, 0, 0]))\<^sup>2 \<and>
   \<not> (\<exists>ar. loss_per_batch_fl ar 1 (Tensor [0, 1, 1, 1] (\<lambda>idx. 0))
            (Tensor [0, 1, 1, 1] (\<lambda>idx. 0)) (Tensor [0, 1, 1, 1] (\<lambda>idx. 0))
            (Tensor [0, 1, 1, 1] (\<lambda>idx. 1)) \<noteq> Some NaN)"
proof (intro conjI)
  show "\<exists>ar. ieee_arith ar"
    using ieee_arith_exists by blast
next
  show "\<not> (\<exists>ar. ieee_arith ar \<and>
          loss_per_batch_fl ar 1 (Tensor [1, 1, 1, 1] (\<lambda>idx. 1 / 2 ^ 100))
            (Tensor [1, 1, 1, 1] (\<lambda>idx. 1)) (Tensor [1, 1, 1, 1] (\<lambda>idx. 1))
            (Tensor [1, 1, 1, 1] (\<lambda>idx. 1)) \<noteq> Some (Num 0))"
    using ieee_arith_underflow by blast
next
  show "elem (Tensor [1, 1, 1, 1] (\<lambda>idx. 1 / 2 ^ 100 :: real)) [0, 0, 0, 0] \<noteq>
     (elem (Tensor [1, 1, 1, 1] (\<lambda>idx. 1 :: real)) [0, 0, 0, 0] -
      elem (Tensor [1, 1, 1, 1] (\<lambda>idx. 1 :: real)) [0, 0, 0, 0]) /
     (elem (Tensor [1, 1, 1, 1] (\<lambda>idx. 1 :: real)) (bidx [1, 1, 1, 1] [0, 0, 0, 0]))\<^sup>2"
    by simp
next
  have "loss_per_batch_fl ar 1 (Tensor [0, 1, 1, 1] (\<lambda>idx. 0))
            (Tensor [0, 1, 1, 1] (\<lambda>idx. 0)) (Tensor [0, 1, 1, 1] (\<lambda>idx. 0))
            (Tensor [0, 1, 1, 1] (\<lambda>idx. 1)) = Some NaN" for ar
    by (rule loss_per_batch_fl_empty) (simp_all add: broadcast_shape_def)
  then show "\<not> (\<exists>ar. loss_per_batch_fl ar 1 (Tensor [0, 1, 1, 1] (\<lambda>idx. 0))
            (Tensor [0, 1, 1, 1] (\<lambda>idx. 0)) (Tensor [0, 1, 1, 1] (\<lambda>idx. 0))
            (Tensor [0, 1, 1, 1] (\<lambda>idx. 1)) \<noteq> Some NaN)"
    by blast
qed

text \<open>
  Claim C6, amended. For inputs of matching shape and positive noise levels: an empty
  batch gives NaN, whatever the arithmetic; for a batch that is not empty and
  \<open>num_L \<ge> 1\<close> the loss computed without rounding is not negative, and it is zero exactly
  when \<open>score = (x - x_perturbed) / sigma\<^sup>2\<close> holds at every element of every example.
\<close>

theorem loss_per_batch_nonneg_zero_iff:
  assumes "shape score = [B, H, W, C]" "shape x_perturbed = [B, H, W, C]"
    "shape x = [B, H, W, C]" "broadcast_shape (shape sigmas) [B, H, W, C] = Some [B, H, W, C]"
    and pos: "\<forall>b<B. \<forall>h<H. \<forall>w<W. \<forall>c<C. 0 < elem sigmas (bidx (shape sigmas) [b, h, w, c])"
  shows "(B = 0 \<longrightarrow> loss_per_batch_fl ar num_L score x_perturbed x sigmas = Some NaN) \<and>
         (0 < B \<and> 1 \<le> num_L \<longrightarrow>
            (\<exists>l. loss_per_batch_fl exact_arith num_L score x_perturbed x sigmas = Some (Num l) \<and>
                 0 \<le> l \<and>
                 (l = 0 \<longleftrightarrow>
                    (\<forall>b<B. \<forall>h<H. \<forall>w<W. \<forall>c<C.
                       elem score [b, h, w, c] =
                         (elem x [b, h, w, c] - elem x_perturbed [b, h, w, c]) /
                         (elem sigmas (bidx (shape sigmas) [b, h, w, c]))\<^sup>2))))"
proof (intro conjI impI)
  assume "B = 0"
  then show "loss_per_batch_fl ar num_L score x_perturbed x sigmas = Some NaN"
    using assms(1-4) by (intro loss_per_batch_fl_empty [where H = H and W = W and C = C]) simp_all
next
  assume a: "0 < B \<and> 1 \<le> num_L"
  let ?r = "residual_at score x_perturbed x sigmas"
  define S where "S = (\<Sum>b<B. \<Sum>c<C. \<Sum>h<H. \<Sum>w<W. (?r b h w c)\<^sup>2)"
  define l where "l = 0.5 * (S / real B) / real_of_int num_L"
  have "loss_per_batch num_L score x_perturbed x sigmas = Some l"
    unfolding l_def S_def by (rule loss_per_batch_sum_of_squares) (rule assms)+
  moreover have "loss_per_batch_fl exact_arith num_L score x_perturbed x sigmas =
      map_option Num (loss_per_batch num_L score x_perturbed x sigmas)"
  proof -
    have "0 < B" "num_L \<noteq> 0" using a by simp_all
    then show ?thesis by (rule loss_per_batch_fl_exact [OF assms(1-4)])
  qed
  ultimately have run: "loss_per_batch_fl exact_arith num_L score x_perturbed x sigmas =
      Some (Num l)"
    by simp
  have S0: "0 \<le> S"
    unfolding S_def by (intro sum_nonneg) simp
  have Bpos: "0 < real B" and Lpos: "0 < real_of_int num_L"
    using a by simp_all
  have nonneg: "0 \<le> l"
    unfolding l_def using S0 Bpos Lpos by simp
  have "l = 0 \<longleftrightarrow> S = 0"
    unfolding l_def using Bpos Lpos by simp
  also have "\<dots> \<longleftrightarrow> (\<forall>b<B. \<forall>c<C. \<forall>h<H. \<forall>w<W. ?r b h w c = 0)"
    unfolding S_def by (simp add: sum_nonneg_eq_0_iff sum_nonneg Ball_def)
  also have "\<dots> \<longleftrightarrow> (\<forall>b<B. \<forall>h<H. \<forall>w<W. \<forall>c<C. ?r b h w c = 0)"
    by blast
  also have "\<dots> \<longleftrightarrow> (\<forall>b<B. \<forall>h<H. \<forall>w<W. \<forall>c<C.
      elem score [b, h, w, c] =
        (elem x [b, h, w, c] - elem x_perturbed [b, h, w, c]) /
        (elem sigmas (bidx (shape sigmas) [b, h, w, c]))\<^sup>2)"
    using pos by (simp add: residual_at_def residual_zero_iff)
  finally show "\<exists>l. loss_per_batch_fl exact_arith num_L score x_perturbed x sigmas = Some (Num l) \<and>
                 0 \<le> l \<and>
                 (l = 0 \<longleftrightarrow>
                    (\<forall>b<B. \<forall>h<H. \<forall>w<W. \<forall>c<C.
                       elem score [b, h, w, c] =
                         (elem x [b, h, w, c] - elem x_perturbed [b, h, w, c]) /
                         (elem sigmas (bidx (shape sigmas) [b, h, w, c]))\<^sup>2))"
    using run nonneg by simp
qed

theorem loss_per_batch_nonneg_zero_iff_witness:
  "loss_per_batch_fl exact_arith 1 (Tensor [1, 1, 2, 1] (\<lambda>idx. - 1))
     (Tensor [1, 1, 2, 1] (\<lambda>idx. 2)) (Tensor [1, 1, 2, 1] (\<lambda>idx. 1))
     (Tensor [1, 1, 1, 1] (\<lambda>idx. 1)) = Some (Num 0)"
proof -
  let ?score = "Tensor [1, 1, 2, 1] (\<lambda>idx. - 1 :: real)"
  let ?xp = "Tensor [1, 1, 2, 1] (\<lambda>idx. 2 :: real)"
  let ?x = "Tensor [1, 1, 2, 1] (\<lambda>idx. 1 :: real)"
  let ?sig = "Tensor [1, 1, 1, 1] (\<lambda>idx. 1 :: real)"
  have "shape ?score = [1, 1, 2, 1]" "shape ?xp = [1, 1, 2, 1]" "shape ?x = [1, 1, 2, 1]"
    "broadcast_shape (shape ?sig) [1, 1, 2, 1] = Some [1, 1, 2, 1]"
    "\<forall>b<1. \<forall>h<1. \<forall>w<2. \<forall>c<1. 0 < elem ?sig (bidx (shape ?sig) [b, h, w, c])"
    by (simp_all add: broadcast_shape_def)
  from loss_per_batch_nonneg_zero_iff [OF this, of exact_arith 1]
  show ?thesis by auto
qed

text \<open>
  Claim C7 does not hold of the code: \<open>ssm_loss\<close> multiplies elementwise, where the claim
  has dot products. For the scores \<open>[1, 1]\<close>, the gradients \<open>[0, 0]\<close> and the draw
  \<open>v = [1, 1]\<close> the code returns the mean of \<open>[1/2, 1/2]\<close>, which is \<open>1/2\<close>; the objective
  with dot products is \<open>0.5 * (1 + 1)\<^sup>2 = 2\<close>.
\<close>

theorem ssm_loss_elementwise_products:
  "ssm_loss (Tensor [2] (\<lambda>idx. 1)) (Tensor [2] (\<lambda>idx. 0))
      \<lparr>normal_src = (\<lambda>k. 1), uniform_src = (\<lambda>k. 0)\<rparr> =
     Some (1/2, \<lparr>normal_src = (\<lambda>k. 1), uniform_src = (\<lambda>k. 0)\<rparr>) \<and>
   ssm_dot_product_objective 2
     (fst (random_normal [2] \<lparr>normal_src = (\<lambda>k. 1), uniform_src = (\<lambda>k. 0)\<rparr>))
     (Tensor [2] (\<lambda>idx. 1)) (Tensor [2] (\<lambda>idx. 0)) = 2"
  by (simp add: ssm_loss_def random_normal_def draws_def tf_transpose_def tmul_def tadd_def
      tbin_def broadcast_shape_def tf_square_def tmap_def reduce_mean_def bidx_def
      flat_index_def ssm_dot_product_objective_def eval_nat_numeral)

end
